theory Spec2Isabelle
  imports Complex_Main "HOL-Library.AList"
begin

section \<open>The upload queue of I'm Emo Now\<close>

text \<open>
  A shallow embedding of \<^verbatim>\<open>src/utils/uploadQueue.ts\<close> (class \<^verbatim>\<open>UploadQueue\<close>) and of the
  \<^verbatim>\<open>upload_queue\<close> part of \<^verbatim>\<open>database.ts\<close>. The engine's fields and the table are one
  explicit state; every call of the outside world (SQLite, NetInfo, the two transfer
  functions, \<^verbatim>\<open>Date.now()\<close>) is a parameter of the function that makes it.
\<close>

subsection \<open>Records of the table (database.ts)\<close>

datatype upload_status = Pending | Uploading | Completed | Failed

text \<open>
  The argument of \<^verbatim>\<open>addToQueue\<close>: an \<^verbatim>\<open>UploadQueueRecord\<close> without the fields the engine
  fills in. The field \<^verbatim>\<open>id\<close> is called \<open>item_id\<close>, since \<open>id\<close> is the identity of HOL.
\<close>

record queue_input =
  item_id :: string
  session_id :: string
  timestamp :: string
  emotion_score :: int
  latitude :: "real option"
  longitude :: "real option"
  video_uri :: "string option"

text \<open>
  \<^verbatim>\<open>interface UploadQueueRecord\<close>. The engine writes only 0 and successors into
  \<^verbatim>\<open>retry_count\<close>, and instants are milliseconds since the epoch, so both are \<open>nat\<close>.
\<close>

record upload_record = queue_input +
  status :: upload_status
  retry_count :: nat
  error_message :: "string option"
  created_at :: nat
  next_retry_at :: nat
  uploaded_at :: "nat option"

subsection \<open>The table and its statements (database.ts)\<close>

text \<open>
  The table \<^verbatim>\<open>upload_queue\<close> is the list of its rows in insertion order. A statement can
  be rejected by the connection (\<^verbatim>\<open>getDatabase()\<close> throws when the database was not opened,
  \<^verbatim>\<open>runAsync\<close> rejects): the parameter \<open>fault\<close> is \<open>Some msg\<close> then, with the message of the
  error, and the table is left as it was.
\<close>

datatype store_error = ConstraintFailed | StoreFailure string

definition error_text :: "store_error \<Rightarrow> string" where
  "error_text err =
     (case err of
        ConstraintFailed \<Rightarrow> ''UNIQUE constraint failed: upload_queue.id''
      | StoreFailure msg \<Rightarrow> msg)"

text \<open>
  \<^verbatim>\<open>INSERT INTO upload_queue (id, ..., next_retry_at) VALUES (...)\<close>: the column
  \<^verbatim>\<open>id TEXT PRIMARY KEY\<close> rejects a second row with the same id; \<^verbatim>\<open>uploaded_at\<close> is not among
  the inserted columns and is NULL in the new row.
\<close>

definition addToUploadQueue ::
  "string option \<Rightarrow> upload_record \<Rightarrow> upload_record list \<Rightarrow> store_error + upload_record list" where
  "addToUploadQueue fault record tbl =
     (case fault of
        Some msg \<Rightarrow> Inl (StoreFailure msg)
      | None \<Rightarrow>
          if item_id record \<in> set (map item_id tbl) then Inl ConstraintFailed
          else Inr (tbl @ [record\<lparr>uploaded_at := None\<rparr>]))"

text \<open>
  \<^verbatim>\<open>SELECT * FROM upload_queue WHERE status IN ('pending', 'failed') ORDER BY created_at ASC\<close>,
  with \<^verbatim>\<open>LIMIT ? OFFSET ?\<close> appended when \<^verbatim>\<open>limit\<close> is truthy (given and not 0). Rows with
  the same \<^verbatim>\<open>created_at\<close> keep their insertion order (\<open>sort_key\<close> is stable).
\<close>

definition getPendingUploads ::
  "string option \<Rightarrow> nat option \<Rightarrow> nat \<Rightarrow> upload_record list \<Rightarrow> store_error + upload_record list" where
  "getPendingUploads fault limit offset tbl =
     (case fault of
        Some msg \<Rightarrow> Inl (StoreFailure msg)
      | None \<Rightarrow>
          (let records = sort_key created_at
                 (filter (\<lambda>r. status r = Pending \<or> status r = Failed) tbl)
           in case limit of
                None \<Rightarrow> Inr records
              | Some l \<Rightarrow> if l = 0 then Inr records else Inr (take l (drop offset records))))"

text \<open>
  \<^verbatim>\<open>UPDATE upload_queue SET status = ?[, retry_count = ?][, error_message = ?][, uploaded_at = ?]
  WHERE id = ?\<close>. An optional argument left out is \<open>None\<close>; \<^verbatim>\<open>errorMessage\<close> may also be given
  as null (\<open>Some None\<close>). \<open>clock\<close> is the \<^verbatim>\<open>Date.now()\<close> read for \<^verbatim>\<open>uploaded_at\<close>.
\<close>

definition updateUploadQueueStatus ::
  "string option \<Rightarrow> string \<Rightarrow> upload_status \<Rightarrow> nat option \<Rightarrow> string option option \<Rightarrow> nat \<Rightarrow>
   upload_record list \<Rightarrow> store_error + upload_record list" where
  "updateUploadQueueStatus fault i st retryCount errorMessage clock tbl =
     (case fault of
        Some msg \<Rightarrow> Inl (StoreFailure msg)
      | None \<Rightarrow>
          Inr (map (\<lambda>r. if item_id r = i
                 then r\<lparr>status := st,
                        retry_count := (case retryCount of None \<Rightarrow> retry_count r | Some n \<Rightarrow> n),
                        error_message :=
                          (case errorMessage of None \<Rightarrow> error_message r | Some m \<Rightarrow> m),
                        uploaded_at := (if st = Completed then Some clock else uploaded_at r)\<rparr>
                 else r) tbl))"

text \<open>\<^verbatim>\<open>DELETE FROM upload_queue WHERE id = ?\<close>\<close>

definition removeFromUploadQueue ::
  "string option \<Rightarrow> string \<Rightarrow> upload_record list \<Rightarrow> store_error + upload_record list" where
  "removeFromUploadQueue fault i tbl =
     (case fault of
        Some msg \<Rightarrow> Inl (StoreFailure msg)
      | None \<Rightarrow> Inr (filter (\<lambda>r. item_id r \<noteq> i) tbl))"

text \<open>\<^verbatim>\<open>database.execAsync('DELETE FROM upload_queue;')\<close>\<close>

definition deleteAll ::
  "string option \<Rightarrow> upload_record list \<Rightarrow> store_error + upload_record list" where
  "deleteAll fault tbl =
     (case fault of Some msg \<Rightarrow> Inl (StoreFailure msg) | None \<Rightarrow> Inr [])"

subsection \<open>The engine's state (class UploadQueue)\<close>

text \<open>
  \<open>queue\<close> is the JavaScript \<^verbatim>\<open>Map\<close>: an association list in insertion order, where
  \<open>AList.update\<close> is \<^verbatim>\<open>set\<close> (an existing key keeps its place, a new one goes last),
  \<open>AList.delete\<close> is \<^verbatim>\<open>delete\<close> and \<open>map_of\<close> is \<^verbatim>\<open>get\<close>. \<open>retryTimer\<close> is \<open>Some delay\<close> while
  a one-shot timer of that delay is armed. \<open>db\<close> is the table.
\<close>

record engine_state =
  queue :: "(string \<times> upload_record) list"
  isProcessing :: bool
  networkListener :: bool
  retryTimer :: "nat option"
  db :: "upload_record list"

definition maxRetries :: nat where
  "maxRetries = 3"

definition retryDelayMs :: nat where
  "retryDelayMs = 5000"

definition BATCH_SIZE :: nat where
  "BATCH_SIZE = 5"

definition initial_state :: engine_state where
  "initial_state =
     \<lparr>queue = [], isProcessing = False, networkListener = False, retryTimer = None, db = []\<rparr>"

subsection \<open>The outside world of one attempt and of one pass\<close>

text \<open>\<^verbatim>\<open>interface UploadResponse\<close> of api.ts, without the unused \<^verbatim>\<open>data\<close>.\<close>

record upload_response =
  success :: bool
  error :: "string option"

text \<open>
  What one call of \<^verbatim>\<open>processItem\<close> meets: the answer of \<^verbatim>\<open>NetInfo.fetch()\<close>, the answers of
  the two transfer functions (they never throw, api.ts catches everything), the instant
  \<^verbatim>\<open>Date.now()\<close> gives during the attempt, and whether the table rejects the write of
  the completion and the write of the failure.
\<close>

record attempt_env =
  isConnected :: bool
  metadataResponse :: upload_response
  videoResponse :: upload_response
  clock :: nat
  completed_write_fault :: "string option"
  failed_write_fault :: "string option"

text \<open>
  What one pass of \<^verbatim>\<open>processQueue\<close> meets: \<open>started\<close> is its \<^verbatim>\<open>Date.now()\<close>, \<open>read_fault\<close>
  tells for each offset whether the page read is rejected, \<open>attempt\<close> gives the world of
  the attempt on each record.
\<close>

record pass_env =
  started :: nat
  read_fault :: "nat \<Rightarrow> string option"
  attempt :: "upload_record \<Rightarrow> attempt_env"

subsection \<open>JavaScript truthiness\<close>

text \<open>A string is truthy when it is neither null/undefined nor empty.\<close>

definition truthy :: "string option \<Rightarrow> bool" where
  "truthy x = (case x of None \<Rightarrow> False | Some str \<Rightarrow> str \<noteq> [])"

text \<open>\<^verbatim>\<open>x || dflt\<close> on an optional string.\<close>

definition or_else :: "string option \<Rightarrow> string \<Rightarrow> string" where
  "or_else x dflt = (case x of None \<Rightarrow> dflt | Some str \<Rightarrow> if str = [] then dflt else str)"

subsection \<open>Reads of the in-memory map\<close>

definition getQueueItems :: "engine_state \<Rightarrow> upload_record list" where
  "getQueueItems s = map snd (queue s)"

definition getQueueItem :: "string \<Rightarrow> engine_state \<Rightarrow> upload_record option" where
  "getQueueItem i s = map_of (queue s) i"

definition getPendingCount :: "engine_state \<Rightarrow> nat" where
  "getPendingCount s =
     length (filter (\<lambda>item. status item = Pending \<or> status item = Failed) (getQueueItems s))"

subsection \<open>processItem\<close>

text \<open>
  \<^verbatim>\<open>updateItemStatus\<close>: looks the id up in the map and, when it is there, writes the
  status (and the message, when truthy) into that object. Nothing is sent to the table.
\<close>

definition updateItemStatus ::
  "string \<Rightarrow> upload_status \<Rightarrow> string option \<Rightarrow> engine_state \<Rightarrow> engine_state" where
  "updateItemStatus i st errorMessage s =
     s\<lparr>queue := AList.map_entry i
          (\<lambda>item. item\<lparr>status := st,
                        error_message :=
                          (if truthy errorMessage then errorMessage else error_message item)\<rparr>)
          (queue s)\<rparr>"

text \<open>
  A field write on the local \<^verbatim>\<open>item\<close> of \<^verbatim>\<open>processItem\<close>. \<^verbatim>\<open>processQueue\<close> has put that very
  object into the map under its id, so until \<^verbatim>\<open>queue.delete\<close> the write is a write to the
  map's entry; after the delete the object is reachable from nowhere else and the write
  is not observable.
\<close>

definition write_item ::
  "string \<Rightarrow> (upload_record \<Rightarrow> upload_record) \<Rightarrow> engine_state \<Rightarrow> engine_state" where
  "write_item i f s = s\<lparr>queue := AList.map_entry i f (queue s)\<rparr>"

definition scheduleQueueProcessing :: "nat \<Rightarrow> engine_state \<Rightarrow> engine_state" where
  "scheduleQueueProcessing delay s = s\<lparr>retryTimer := Some delay\<rparr>"

text \<open>\<^verbatim>\<open>if (item.video_uri)\<close>\<close>

definition has_video :: "upload_record \<Rightarrow> bool" where
  "has_video item = truthy (video_uri item)"

text \<open>
  The two checks after \<^verbatim>\<open>Promise.all\<close>: \<open>Some msg\<close> is the message of the \<^verbatim>\<open>Error\<close> thrown,
  \<open>None\<close> means that neither check throws.
\<close>

definition transfer_error :: "attempt_env \<Rightarrow> upload_record \<Rightarrow> string option" where
  "transfer_error e item =
     (if \<not> success (metadataResponse e)
      then Some (or_else (error (metadataResponse e)) ''Failed to upload metadata'')
      else if has_video item \<and> \<not> success (videoResponse e)
      then Some (or_else (error (videoResponse e)) ''Failed to upload video'')
      else None)"

text \<open>
  The part of \<^verbatim>\<open>processItem\<close> before its \<^verbatim>\<open>try\<close>: the connectivity check, the retry limit
  and the mark \<^verbatim>\<open>uploading\<close>. The flag tells whether the attempt goes on to the transfers.
\<close>

definition processItem_begin ::
  "attempt_env \<Rightarrow> upload_record \<Rightarrow> engine_state \<Rightarrow> bool \<times> engine_state" where
  "processItem_begin e item s =
     (if \<not> isConnected e then (False, s)
      else if retry_count item \<ge> maxRetries
      then (False, updateItemStatus (item_id item) Failed None s)
      else (True, updateItemStatus (item_id item) Uploading None s))"

text \<open>
  The \<^verbatim>\<open>catch\<close> block of \<^verbatim>\<open>processItem\<close>, entered with the message of the error. The write
  to the table has \<^verbatim>\<open>.catch\<close>: a rejected write is logged and the table stays as it was.
\<close>

definition persist_failure ::
  "attempt_env \<Rightarrow> string \<Rightarrow> nat \<Rightarrow> string \<Rightarrow> engine_state \<Rightarrow> engine_state" where
  "persist_failure e i rc errorMessage s =
     (case updateUploadQueueStatus (failed_write_fault e) i Failed (Some rc)
             (Some (Some errorMessage)) (clock e) (db s) of
        Inl err \<Rightarrow> s
      | Inr tbl \<Rightarrow> s\<lparr>db := tbl\<rparr>)"

definition processItem_catch ::
  "attempt_env \<Rightarrow> upload_record \<Rightarrow> string \<Rightarrow> engine_state \<Rightarrow> engine_state" where
  "processItem_catch e item errorMessage s =
     (let rc = retry_count item + 1;
          s1 = write_item (item_id item) (\<lambda>r. r\<lparr>retry_count := rc\<rparr>) s;
          s2 = updateItemStatus (item_id item) Failed (Some errorMessage) s1
      in if rc < maxRetries
         then (let delay = retryDelayMs * 2 ^ (rc - 1);
                   s3 = write_item (item_id item) (\<lambda>r. r\<lparr>next_retry_at := clock e + delay\<rparr>) s2;
                   s4 = persist_failure e (item_id item) rc errorMessage s3
               in scheduleQueueProcessing delay s4)
         else persist_failure e (item_id item) rc errorMessage s2)"

text \<open>
  The \<^verbatim>\<open>try\<close> block once the transfers have answered. A rejected write of the completion
  is an error inside the \<^verbatim>\<open>try\<close> and lands in the \<^verbatim>\<open>catch\<close> block as well, after the item
  has left the map.
\<close>

definition processItem_finish ::
  "attempt_env \<Rightarrow> upload_record \<Rightarrow> engine_state \<Rightarrow> engine_state" where
  "processItem_finish e item s =
     (case transfer_error e item of
        Some msg \<Rightarrow> processItem_catch e item msg s
      | None \<Rightarrow>
          (let s1 = s\<lparr>queue := AList.delete (item_id item) (queue s)\<rparr>
           in case updateUploadQueueStatus (completed_write_fault e) (item_id item) Completed
                     None None (clock e) (db s1) of
                Inr tbl \<Rightarrow> s1\<lparr>db := tbl\<rparr>
              | Inl err \<Rightarrow> processItem_catch e item (error_text err) s1))"

definition processItem :: "attempt_env \<Rightarrow> upload_record \<Rightarrow> engine_state \<Rightarrow> engine_state" where
  "processItem e item s =
     (case processItem_begin e item s of
        (go, s1) \<Rightarrow> if go then processItem_finish e item s1 else s1)"

subsection \<open>processQueue\<close>

text \<open>
  The body of the \<^verbatim>\<open>for\<close> loop over one page: put the record into the map, then attempt
  it.
\<close>

definition processQueue_step :: "attempt_env \<Rightarrow> upload_record \<Rightarrow> engine_state \<Rightarrow> engine_state" where
  "processQueue_step e dbItem s =
     processItem e dbItem (s\<lparr>queue := AList.update (item_id dbItem) dbItem (queue s)\<rparr>)"

fun processBatch ::
  "(upload_record \<Rightarrow> attempt_env) \<Rightarrow> upload_record list \<Rightarrow> engine_state \<Rightarrow> engine_state" where
  "processBatch w [] s = s"
| "processBatch w (dbItem # rest) s = processBatch w rest (processQueue_step (w dbItem) dbItem s)"

text \<open>
  The \<^verbatim>\<open>while\<close> loop of \<^verbatim>\<open>processQueue\<close>: read the page at \<open>offset\<close>, stop at an empty
  page, keep the records whose \<^verbatim>\<open>next_retry_at\<close> has passed, attempt them, move the offset
  on by the batch size. A rejected page read throws out of the loop.
\<close>

function processLoop :: "pass_env \<Rightarrow> nat \<Rightarrow> engine_state \<Rightarrow> engine_state" where
  "processLoop p offset s =
     (case getPendingUploads (read_fault p offset) (Some BATCH_SIZE) offset (db s) of
        Inl err \<Rightarrow> s
      | Inr dbItems \<Rightarrow>
          if dbItems = [] then s
          else processLoop p (offset + BATCH_SIZE)
                 (processBatch (attempt p)
                    (filter (\<lambda>dbItem. next_retry_at dbItem \<le> started p) dbItems) s))"
  by pat_completeness auto

text \<open>
  The loop ends: no statement of an attempt adds or removes a row, and a page that is not
  empty starts below the number of rows, so the rows left beyond the offset get fewer.
\<close>

termination
proof (relation "measure (\<lambda>(p, offset, s). length (db s) - offset)")
  show "wf (measure (\<lambda>(p, offset, s). length (db s) - offset))"
    by simp
next
  fix p :: pass_env and offset :: nat and s :: engine_state and dbItems :: "upload_record list"
  assume page: "getPendingUploads (read_fault p offset) (Some BATCH_SIZE) offset (db s) = Inr dbItems"
    and nonempty: "dbItems \<noteq> []"
  have upd: "\<And>f i st rc msg c tbl tbl'.
      updateUploadQueueStatus f i st rc msg c tbl = Inr tbl' \<Longrightarrow> length tbl' = length tbl"
    by (auto simp: updateUploadQueueStatus_def split: option.splits)
  have persist: "\<And>e i rc msg t. length (db (persist_failure e i rc msg t)) = length (db t)"
    by (auto simp: persist_failure_def dest: upd split: sum.splits)
  have catch: "\<And>e item msg t. length (db (processItem_catch e item msg t)) = length (db t)"
    by (simp add: processItem_catch_def Let_def persist scheduleQueueProcessing_def
        write_item_def updateItemStatus_def)
  have finish: "\<And>e item t. length (db (processItem_finish e item t)) = length (db t)"
    by (auto simp: processItem_finish_def Let_def catch dest: upd split: option.splits sum.splits)
  have item: "\<And>e item t. length (db (processItem e item t)) = length (db t)"
    by (simp add: processItem_def processItem_begin_def finish updateItemStatus_def)
  have batch: "\<And>w items t. length (db (processBatch w items t)) = length (db t)"
  proof -
    fix w items t
    show "length (db (processBatch w items t)) = length (db t)"
      by (induction items arbitrary: t) (simp_all add: processQueue_step_def item)
  qed
  from page nonempty have "offset < length (db s)"
  proof -
    let ?rows = "sort_key created_at (filter (\<lambda>r. status r = Pending \<or> status r = Failed) (db s))"
    from page nonempty have "take BATCH_SIZE (drop offset ?rows) \<noteq> []"
      by (auto simp: getPendingUploads_def Let_def BATCH_SIZE_def split: option.splits if_splits)
    then have "offset < length ?rows"
      by (cases "offset < length ?rows") simp_all
    also have "length ?rows \<le> length (db s)"
      by simp
    finally show ?thesis .
  qed
  then show "((p, offset + BATCH_SIZE,
        processBatch (attempt p) (filter (\<lambda>dbItem. next_retry_at dbItem \<le> started p) dbItems) s),
       (p, offset, s)) \<in> measure (\<lambda>(p, offset, s). length (db s) - offset)"
    by (simp add: batch BATCH_SIZE_def)
qed

text \<open>
  \<^verbatim>\<open>processQueue\<close>: the guard, the flag, the loop from offset 0, and \<^verbatim>\<open>finally\<close> the flag
  again. No caller awaits the promise, so a rejection is seen by nobody and the state is
  all that is left of the call.
\<close>

definition processQueue :: "pass_env \<Rightarrow> engine_state \<Rightarrow> engine_state" where
  "processQueue p s =
     (if isProcessing s then s
      else (processLoop p 0 (s\<lparr>isProcessing := True\<rparr>))\<lparr>isProcessing := False\<rparr>)"

text \<open>The timer's callback, and the callback given to \<^verbatim>\<open>NetInfo.addEventListener\<close>.\<close>

definition retryTimer_fires :: "pass_env \<Rightarrow> engine_state \<Rightarrow> engine_state" where
  "retryTimer_fires p s = processQueue p (s\<lparr>retryTimer := None\<rparr>)"

definition networkListener_fires :: "bool \<Rightarrow> pass_env \<Rightarrow> engine_state \<Rightarrow> engine_state" where
  "networkListener_fires online p s =
     (if online \<and> \<not> isProcessing s then processQueue p s else s)"

subsection \<open>The public methods\<close>

text \<open>The \<^verbatim>\<open>queueItem\<close> that \<^verbatim>\<open>addToQueue\<close> builds; \<open>now\<close> is its \<^verbatim>\<open>Date.now()\<close>.\<close>

definition queueItem :: "queue_input \<Rightarrow> nat \<Rightarrow> upload_record" where
  "queueItem item now =
     \<lparr>item_id = item_id item, session_id = session_id item, timestamp = timestamp item,
      emotion_score = emotion_score item, latitude = latitude item,
      longitude = longitude item, video_uri = video_uri item,
      status = Pending, retry_count = 0, error_message = None, created_at = now,
      next_retry_at = 0, uploaded_at = None\<rparr>"

text \<open>\<^verbatim>\<open>addToQueue\<close> up to its \<^verbatim>\<open>await addToUploadQueue(queueItem)\<close>.\<close>

definition addToQueue_set :: "queue_input \<Rightarrow> nat \<Rightarrow> engine_state \<Rightarrow> engine_state" where
  "addToQueue_set item now s =
     s\<lparr>queue := AList.update (item_id item) (queueItem item now) (queue s)\<rparr>"

text \<open>
  \<^verbatim>\<open>addToQueue\<close>. The first component is the error the call throws, \<open>None\<close> when it
  resolves. \<open>p\<close> is the world of the pass that the call starts.
\<close>

definition addToQueue ::
  "queue_input \<Rightarrow> nat \<Rightarrow> string option \<Rightarrow> pass_env \<Rightarrow> engine_state \<Rightarrow>
   store_error option \<times> engine_state" where
  "addToQueue item now fault p s =
     (let s1 = addToQueue_set item now s
      in case addToUploadQueue fault (queueItem item now) (db s1) of
           Inl err \<Rightarrow> (Some err, s1\<lparr>queue := AList.delete (item_id item) (queue s1)\<rparr>)
         | Inr tbl \<Rightarrow> (None, processQueue p (s1\<lparr>db := tbl\<rparr>)))"

text \<open>\<^verbatim>\<open>removeFromQueue\<close>: the delete in the table is not awaited and its error is logged.\<close>

definition removeFromQueue :: "string \<Rightarrow> string option \<Rightarrow> engine_state \<Rightarrow> engine_state" where
  "removeFromQueue i fault s =
     (let s1 = s\<lparr>queue := AList.delete i (queue s)\<rparr>
      in case removeFromUploadQueue fault i (db s1) of
           Inl err \<Rightarrow> s1
         | Inr tbl \<Rightarrow> s1\<lparr>db := tbl\<rparr>)"

text \<open>\<^verbatim>\<open>clearQueue\<close>: \<^verbatim>\<open>this.queue.clear()\<close>, then the bulk delete; an error is thrown on.\<close>

definition clearQueue :: "string option \<Rightarrow> engine_state \<Rightarrow> store_error option \<times> engine_state" where
  "clearQueue fault s =
     (let s1 = s\<lparr>queue := []\<rparr>
      in case deleteAll fault (db s1) of
           Inl err \<Rightarrow> (Some err, s1)
         | Inr tbl \<Rightarrow> (None, s1\<lparr>db := tbl\<rparr>))"

text \<open>
  The \<^verbatim>\<open>for\<close> loop of \<^verbatim>\<open>loadQueueFromDatabase\<close>. A rejected update throws out of the loop,
  before the record of that round is put into the map.
\<close>

fun load_records ::
  "string option \<Rightarrow> nat \<Rightarrow> upload_record list \<Rightarrow> engine_state \<Rightarrow>
   store_error option \<times> engine_state" where
  "load_records fault c [] s = (None, s)"
| "load_records fault c (record # rest) s =
     (if status record = Uploading
      then (case updateUploadQueueStatus fault (item_id record) Pending None None c (db s) of
              Inl err \<Rightarrow> (Some err, s)
            | Inr tbl \<Rightarrow>
                load_records fault c rest
                  (s\<lparr>db := tbl, queue := AList.update (item_id record) record (queue s)\<rparr>))
      else load_records fault c rest
             (s\<lparr>queue := AList.update (item_id record) record (queue s)\<rparr>))"

text \<open>
  \<^verbatim>\<open>loadQueueFromDatabase\<close>: \<^verbatim>\<open>getPendingUploads()\<close> without a limit, \<^verbatim>\<open>this.queue.clear()\<close>,
  the loop. \<open>rfault\<close> is the fault of the read, \<open>ufault\<close> that of the updates, \<open>c\<close> the
  clock.
\<close>

definition loadQueueFromDatabase ::
  "string option \<Rightarrow> string option \<Rightarrow> nat \<Rightarrow> engine_state \<Rightarrow> store_error option \<times> engine_state" where
  "loadQueueFromDatabase rfault ufault c s =
     (case getPendingUploads rfault None 0 (db s) of
        Inl err \<Rightarrow> (Some err, s)
      | Inr records \<Rightarrow> load_records ufault c records (s\<lparr>queue := []\<rparr>))"

definition setupNetworkMonitoring :: "engine_state \<Rightarrow> engine_state" where
  "setupNetworkMonitoring s = s\<lparr>networkListener := True\<rparr>"

text \<open>
  \<^verbatim>\<open>initialize\<close>: the load (its error is caught and logged), the listener, and a pass when
  \<^verbatim>\<open>NetInfo.fetch()\<close> answers connected (\<open>online\<close>).
\<close>

definition initialize ::
  "string option \<Rightarrow> string option \<Rightarrow> nat \<Rightarrow> bool \<Rightarrow> pass_env \<Rightarrow> engine_state \<Rightarrow> engine_state" where
  "initialize rfault ufault c online p s =
     (let s1 = snd (loadQueueFromDatabase rfault ufault c s);
          s2 = setupNetworkMonitoring s1
      in if online then processQueue p s2 else s2)"

definition cleanup :: "engine_state \<Rightarrow> engine_state" where
  "cleanup s = s\<lparr>networkListener := False, retryTimer := None\<rparr>"

subsection \<open>The instants of a pass\<close>

text \<open>How many items of the map are in status \<^verbatim>\<open>uploading\<close>.\<close>

definition uploading_count :: "engine_state \<Rightarrow> nat" where
  "uploading_count s =
     length (filter (\<lambda>item. status item = Uploading) (getQueueItems s))"

text \<open>
  The states in which the \<^verbatim>\<open>for\<close> loop over one page gives control away, in order: for
  each record the state after \<^verbatim>\<open>queue.set\<close> (where \<^verbatim>\<open>processItem\<close> awaits the network
  poll), the state after the part before the \<^verbatim>\<open>try\<close> (where it awaits the transfers, when
  it goes on), and the state when \<^verbatim>\<open>processItem\<close> has returned.
\<close>

fun processBatch_instants ::
  "(upload_record \<Rightarrow> attempt_env) \<Rightarrow> upload_record list \<Rightarrow> engine_state \<Rightarrow> engine_state list" where
  "processBatch_instants w [] s = []"
| "processBatch_instants w (dbItem # rest) s =
     s\<lparr>queue := AList.update (item_id dbItem) dbItem (queue s)\<rparr>
     # snd (processItem_begin (w dbItem) dbItem
         (s\<lparr>queue := AList.update (item_id dbItem) dbItem (queue s)\<rparr>))
     # processQueue_step (w dbItem) dbItem s
     # processBatch_instants w rest (processQueue_step (w dbItem) dbItem s)"

text \<open>The same for the \<^verbatim>\<open>while\<close> loop: the instants of each page, page after page.\<close>

function processLoop_instants :: "pass_env \<Rightarrow> nat \<Rightarrow> engine_state \<Rightarrow> engine_state list" where
  "processLoop_instants p offset s =
     (case getPendingUploads (read_fault p offset) (Some BATCH_SIZE) offset (db s) of
        Inl err \<Rightarrow> []
      | Inr dbItems \<Rightarrow>
          if dbItems = [] then []
          else processBatch_instants (attempt p)
                 (filter (\<lambda>dbItem. next_retry_at dbItem \<le> started p) dbItems) s
               @ processLoop_instants p (offset + BATCH_SIZE)
                   (processBatch (attempt p)
                      (filter (\<lambda>dbItem. next_retry_at dbItem \<le> started p) dbItems) s))"
  by pat_completeness auto

termination
proof (relation "measure (\<lambda>(p, offset, s). length (db s) - offset)")
  show "wf (measure (\<lambda>(p, offset, s). length (db s) - offset))"
    by simp
next
  fix p :: pass_env and offset :: nat and s :: engine_state and dbItems :: "upload_record list"
  assume page: "getPendingUploads (read_fault p offset) (Some BATCH_SIZE) offset (db s) = Inr dbItems"
    and nonempty: "dbItems \<noteq> []"
  have upd: "\<And>f i st rc msg c tbl tbl'.
      updateUploadQueueStatus f i st rc msg c tbl = Inr tbl' \<Longrightarrow> length tbl' = length tbl"
    by (auto simp: updateUploadQueueStatus_def split: option.splits)
  have persist: "\<And>e i rc msg t. length (db (persist_failure e i rc msg t)) = length (db t)"
    by (auto simp: persist_failure_def dest: upd split: sum.splits)
  have catch: "\<And>e item msg t. length (db (processItem_catch e item msg t)) = length (db t)"
    by (simp add: processItem_catch_def Let_def persist scheduleQueueProcessing_def
        write_item_def updateItemStatus_def)
  have finish: "\<And>e item t. length (db (processItem_finish e item t)) = length (db t)"
    by (auto simp: processItem_finish_def Let_def catch dest: upd split: option.splits sum.splits)
  have item: "\<And>e item t. length (db (processItem e item t)) = length (db t)"
    by (simp add: processItem_def processItem_begin_def finish updateItemStatus_def)
  have batch: "\<And>w items t. length (db (processBatch w items t)) = length (db t)"
  proof -
    fix w items t
    show "length (db (processBatch w items t)) = length (db t)"
      by (induction items arbitrary: t) (simp_all add: processQueue_step_def item)
  qed
  from page nonempty have "offset < length (db s)"
  proof -
    let ?rows = "sort_key created_at (filter (\<lambda>r. status r = Pending \<or> status r = Failed) (db s))"
    from page nonempty have "take BATCH_SIZE (drop offset ?rows) \<noteq> []"
      by (auto simp: getPendingUploads_def Let_def BATCH_SIZE_def split: option.splits if_splits)
    then have "offset < length ?rows"
      by (cases "offset < length ?rows") simp_all
    also have "length ?rows \<le> length (db s)"
      by simp
    finally show ?thesis .
  qed
  then show "((p, offset + BATCH_SIZE,
        processBatch (attempt p) (filter (\<lambda>dbItem. next_retry_at dbItem \<le> started p) dbItems) s),
       (p, offset, s)) \<in> measure (\<lambda>(p, offset, s). length (db s) - offset)"
    by (simp add: batch BATCH_SIZE_def)
qed

text \<open>
  The instants of a pass of \<^verbatim>\<open>processQueue\<close>, from the flag set to the last attempt: none
  when the guard returns at once. The state the pass leaves is \<open>processQueue p s\<close>.
\<close>

definition processQueue_instants :: "pass_env \<Rightarrow> engine_state \<Rightarrow> engine_state list" where
  "processQueue_instants p s =
     (if isProcessing s then []
      else s\<lparr>isProcessing := True\<rparr> # processLoop_instants p 0 (s\<lparr>isProcessing := True\<rparr>))"

subsection \<open>Sample inputs and worlds\<close>

text \<open>A metadata-only check-in with the given id.\<close>

definition sample_input :: "string \<Rightarrow> queue_input" where
  "sample_input i =
     \<lparr>item_id = i, session_id = i, timestamp = ''2025-01-01T09:00:00+08:00'',
      emotion_score = 3, latitude = None, longitude = None, video_uri = None\<rparr>"

definition accepted :: upload_response where
  "accepted = \<lparr>success = True, error = None\<rparr>"

definition refused :: upload_response where
  "refused = \<lparr>success = False, error = Some ''HTTP 500: Unknown error''\<rparr>"

text \<open>
  An attempt at instant \<open>c\<close> that finds the network \<open>online\<close> or not, both transfers
  answering alike, and a table that serves every write.
\<close>

definition sample_attempt :: "bool \<Rightarrow> bool \<Rightarrow> nat \<Rightarrow> attempt_env" where
  "sample_attempt online ok c =
     \<lparr>isConnected = online,
      metadataResponse = (if ok then accepted else refused),
      videoResponse = (if ok then accepted else refused),
      clock = c, completed_write_fault = None, failed_write_fault = None\<rparr>"

text \<open>A pass at instant \<open>c\<close> whose page reads are served and whose attempts are all such.\<close>

definition world :: "bool \<Rightarrow> bool \<Rightarrow> nat \<Rightarrow> pass_env" where
  "world online ok c =
     \<lparr>started = c, read_fault = (\<lambda>offset. None),
      attempt = (\<lambda>item. sample_attempt online ok c)\<rparr>"

text \<open>The record that \<^verbatim>\<open>addToQueue\<close> builds for item \<open>a\<close> at instant 10.\<close>

definition sample_row :: upload_record where
  "sample_row = queueItem (sample_input ''a'') 10"

text \<open>The engine after item \<open>a\<close> was enqueued at instant 10 without network.\<close>

definition queued_offline :: engine_state where
  "queued_offline =
     snd (addToQueue (sample_input ''a'') 10 None (world False True 10) initial_state)"

text \<open>
  A table left by a crash: the row of item \<open>a\<close> carries status \<^verbatim>\<open>uploading\<close> and one
  failed attempt; the engine itself is fresh.
\<close>

definition interrupted :: engine_state where
  "interrupted =
     initial_state
       \<lparr>db := [(queueItem (sample_input ''a'') 10)\<lparr>status := Uploading, retry_count := 1\<rparr>]\<rparr>"

text \<open>
  \<^verbatim>\<open>addToQueue\<close> of a sample item at instant \<open>c\<close>, with a table that serves the insert and
  transfers that succeed whenever they are called.
\<close>

definition enqueue_sample :: "string \<Rightarrow> nat \<Rightarrow> bool \<Rightarrow> engine_state \<Rightarrow> engine_state" where
  "enqueue_sample i c online s =
     snd (addToQueue (sample_input i) c None (world online True c) s)"

text \<open>Six items enqueued without network, one after the other.\<close>

definition backlog :: engine_state where
  "backlog =
     enqueue_sample ''f'' 15 False (enqueue_sample ''e'' 14 False
       (enqueue_sample ''d'' 13 False (enqueue_sample ''c'' 12 False
         (enqueue_sample ''b'' 11 False (enqueue_sample ''a'' 10 False initial_state)))))"

text \<open>
  A pass caught in the middle, with the network up all the time: item \<open>a\<close> was enqueued
  at instant 10 on the empty engine, the pass that this call started has set the flag,
  read its first page (the row of \<open>a\<close>), put the record into the map and marked it; it
  now awaits the transfers of \<open>a\<close>.
\<close>

definition awaiting_first_transfer :: engine_state where
  "awaiting_first_transfer =
     snd (processItem_begin (sample_attempt True True 10) sample_row
       ((addToQueue_set (sample_input ''a'') 10 initial_state)
          \<lparr>db := [sample_row], isProcessing := True,
           queue := AList.update ''a'' sample_row
             (queue (addToQueue_set (sample_input ''a'') 10 initial_state))\<rparr>))"

text \<open>While the pass waits, items \<open>b\<close> to \<open>g\<close> are enqueued.\<close>

definition enqueued_meanwhile :: engine_state where
  "enqueued_meanwhile =
     enqueue_sample ''g'' 16 True (enqueue_sample ''f'' 15 True (enqueue_sample ''e'' 14 True
       (enqueue_sample ''d'' 13 True (enqueue_sample ''c'' 12 True
         (enqueue_sample ''b'' 11 True awaiting_first_transfer)))))"

text \<open>
  The transfers of \<open>a\<close> answer and the pass runs to its end: the rest of the attempt, the
  loop from the next offset, the flag.
\<close>

definition pass_resumed :: engine_state where
  "pass_resumed =
     (processLoop (world True True 10) BATCH_SIZE
        (processItem_finish (sample_attempt True True 10) sample_row enqueued_meanwhile))
       \<lparr>isProcessing := False\<rparr>"

section \<open>Properties\<close>

subsection \<open>Unfolding the engine on given inputs\<close>

text \<open>
  The equations of the two loops are unfolded where a proof asks for it, never by
  default.
\<close>

declare processLoop.simps [simp del] processLoop_instants.simps [simp del]

lemmas engine_defs =
  processQueue_def processLoop.simps processQueue_step_def processItem_def
  processItem_begin_def processItem_finish_def
  processItem_catch_def persist_failure_def updateItemStatus_def write_item_def
  scheduleQueueProcessing_def transfer_error_def has_video_def truthy_def or_else_def
  getPendingUploads_def updateUploadQueueStatus_def addToUploadQueue_def
  addToQueue_def addToQueue_set_def getQueueItems_def getQueueItem_def
  maxRetries_def retryDelayMs_def BATCH_SIZE_def error_text_def Let_def AList.delete_eq

lemmas sample_defs =
  world_def sample_attempt_def sample_row_def accepted_def refused_def queueItem_def
  sample_input_def initial_state_def

lemma queued_offline_eq:
  "queued_offline =
     \<lparr>queue = [(''a'', queueItem (sample_input ''a'') 10)], isProcessing = False,
      networkListener = False, retryTimer = None, db = [queueItem (sample_input ''a'') 10]\<rparr>"
  by (simp add: queued_offline_def engine_defs sample_defs)

lemma backlog_eq:
  "backlog =
     \<lparr>queue = map (\<lambda>(i, c). (i, queueItem (sample_input i) c))
        [(''a'', 10), (''b'', 11), (''c'', 12), (''d'', 13), (''e'', 14), (''f'', 15)],
      isProcessing = False, networkListener = False, retryTimer = None,
      db = map (\<lambda>(i, c). queueItem (sample_input i) c)
        [(''a'', 10), (''b'', 11), (''c'', 12), (''d'', 13), (''e'', 14), (''f'', 15)]\<rparr>"
  by (simp add: backlog_def enqueue_sample_def engine_defs sample_defs)

subsection \<open>Page reads\<close>

text \<open>Every record of a page is a row of the table that is pending or failed.\<close>

lemma getPendingUploads_status:
  assumes "getPendingUploads fault limit offset tbl = Inr records" and "r \<in> set records"
  shows "r \<in> set tbl \<and> (status r = Pending \<or> status r = Failed)"
proof -
  let ?all = "sort_key created_at (filter (\<lambda>r. status r = Pending \<or> status r = Failed) tbl)"
  have page: "set (take l (drop offset ?all)) \<subseteq> set ?all" for l
    by (meson set_take_subset set_drop_subset subset_trans)
  from assms(1) have "records = ?all \<or> (\<exists>l. records = take l (drop offset ?all))"
    by (auto simp: getPendingUploads_def Let_def split: option.splits if_splits)
  with page have "set records \<subseteq> set ?all"
    by auto
  with assms(2) show ?thesis
    by auto
qed

subsection \<open>The cases of processItem\<close>

lemma transfer_error_None_iff:
  "transfer_error e item = None
   \<longleftrightarrow> success (metadataResponse e) \<and> (\<not> has_video item \<or> success (videoResponse e))"
  by (auto simp: transfer_error_def)


lemma delete_map_entry_same: "AList.delete k (AList.map_entry k f al) = AList.delete k al"
  by (induction al) (auto simp: AList.delete_eq)

lemma map_entry_twice: "AList.map_entry k f (AList.map_entry k g al) = AList.map_entry k (f \<circ> g) al"
  by (induction al) auto

lemma processItem_offline: "\<not> isConnected e \<Longrightarrow> processItem e item s = s"
  by (simp add: processItem_def processItem_begin_def)

lemma processItem_exhausted:
  "isConnected e \<Longrightarrow> maxRetries \<le> retry_count item \<Longrightarrow>
   processItem e item s = updateItemStatus (item_id item) Failed None s"
  by (simp add: processItem_def processItem_begin_def)

lemma processItem_completed:
  assumes "isConnected e" and "retry_count item < maxRetries"
    and "transfer_error e item = None" and "completed_write_fault e = None"
  shows "processItem e item s =
     s\<lparr>queue := AList.delete (item_id item) (queue s),
       db := map (\<lambda>r. if item_id r = item_id item
                      then r\<lparr>status := Completed, uploaded_at := Some (clock e)\<rparr> else r) (db s)\<rparr>"
  using assms
  by (simp add: processItem_def processItem_begin_def processItem_finish_def updateItemStatus_def
      updateUploadQueueStatus_def Let_def delete_map_entry_same)

lemma processItem_failed_db:
  assumes "isConnected e" and "retry_count item < maxRetries"
    and "transfer_error e item = Some msg" and "failed_write_fault e = None"
  shows "db (processItem e item s) =
     map (\<lambda>r. if item_id r = item_id item
               then r\<lparr>status := Failed, retry_count := retry_count item + 1,
                      error_message := Some msg\<rparr> else r) (db s)"
  using assms
  by (simp add: processItem_def processItem_begin_def processItem_finish_def updateItemStatus_def
      processItem_catch_def persist_failure_def write_item_def scheduleQueueProcessing_def
      updateUploadQueueStatus_def Let_def)



subsection \<open>Items in status uploading\<close>

lemma uploading_count_0_iff:
  "uploading_count s = 0 \<longleftrightarrow> (\<forall>kv \<in> set (queue s). status (snd kv) \<noteq> Uploading)"
  by (auto simp: uploading_count_def getQueueItems_def filter_empty_conv)

lemma set_update_subset: "set (AList.update k v al) \<subseteq> insert (k, v) (set al)"
  by (induction al) auto

lemma set_delete_subset: "set (AList.delete k al) \<subseteq> set al"
  by (auto simp: AList.delete_eq)

lemma set_map_entry_subset: "set (AList.map_entry k f al) \<subseteq> set al \<union> {(k, f v) | v. (k, v) \<in> set al}"
  by (induction al) auto

lemma map_entry_uploading_le:
  "length (filter (P \<circ> snd) (AList.map_entry k f al)) \<le> Suc (length (filter (P \<circ> snd) al))"
  by (induction al) auto

lemma uploading_count_set:
  assumes "uploading_count s = 0" and "status r \<noteq> Uploading"
  shows "uploading_count (s\<lparr>queue := AList.update i r (queue s)\<rparr>) = 0"
  using assms set_update_subset [of i r "queue s"]
  by (auto simp: uploading_count_0_iff)

lemma uploading_count_begin:
  "uploading_count (snd (processItem_begin e item s)) \<le> Suc (uploading_count s)"
  by (simp add: processItem_begin_def updateItemStatus_def uploading_count_def getQueueItems_def
      filter_map map_entry_uploading_le)

lemma processItem_catch_queue:
  "\<exists>f. (\<forall>v. status (f v) = Failed)
     \<and> queue (processItem_catch e item msg s) = AList.map_entry (item_id item) f (queue s)"
proof (cases "retry_count item + 1 < maxRetries")
  case True
  let ?f = "\<lambda>r. r\<lparr>retry_count := retry_count item + 1, status := Failed,
      error_message := (if truthy (Some msg) then Some msg else error_message r),
      next_retry_at := clock e + retryDelayMs * 2 ^ retry_count item\<rparr>"
  from True have "queue (processItem_catch e item msg s) = AList.map_entry (item_id item) ?f (queue s)"
    by (simp add: processItem_catch_def persist_failure_def write_item_def updateItemStatus_def
        scheduleQueueProcessing_def Let_def map_entry_twice comp_def split: sum.splits cong: if_cong)
  moreover have "\<forall>v. status (?f v) = Failed"
    by simp
  ultimately show ?thesis
    by (intro exI [of _ ?f] conjI)
next
  case False
  let ?f = "\<lambda>r. r\<lparr>retry_count := retry_count item + 1, status := Failed,
      error_message := (if truthy (Some msg) then Some msg else error_message r)\<rparr>"
  from False have "queue (processItem_catch e item msg s) = AList.map_entry (item_id item) ?f (queue s)"
    by (simp add: processItem_catch_def persist_failure_def write_item_def updateItemStatus_def
        Let_def map_entry_twice comp_def split: sum.splits cong: if_cong)
  moreover have "\<forall>v. status (?f v) = Failed"
    by simp
  ultimately show ?thesis
    by (intro exI [of _ ?f] conjI)
qed

lemma quiet_map_entry:
  assumes "\<forall>kv \<in> set al. status (snd kv) \<noteq> Uploading" and "\<forall>v. status (f v) \<noteq> Uploading"
  shows "\<forall>kv \<in> set (AList.map_entry k f al). status (snd kv) \<noteq> Uploading"
  using assms set_map_entry_subset [of k f al]
  by fastforce

lemma quiet_delete:
  assumes "\<forall>kv \<in> set al. status (snd kv) \<noteq> Uploading"
  shows "\<forall>kv \<in> set (AList.delete k al). status (snd kv) \<noteq> Uploading"
  using assms set_delete_subset [of k al]
  by blast

lemma processItem_finish_queue:
  "queue (processItem_finish e item s) = AList.delete (item_id item) (queue s)
   \<or> (\<exists>f. (\<forall>v. status (f v) = Failed)
        \<and> (queue (processItem_finish e item s) = AList.map_entry (item_id item) f (queue s)
           \<or> queue (processItem_finish e item s)
              = AList.map_entry (item_id item) f (AList.delete (item_id item) (queue s))))"
proof (cases "transfer_error e item")
  case (Some msg)
  with processItem_catch_queue [of e item msg s] show ?thesis
    by (auto simp: processItem_finish_def)
next
  case None
  show ?thesis
  proof (cases "updateUploadQueueStatus (completed_write_fault e) (item_id item) Completed
      None None (clock e) (db s)")
    case (Inr tbl)
    with None show ?thesis
      by (simp add: processItem_finish_def Let_def)
  next
    case (Inl err)
    with None processItem_catch_queue [of e item "error_text err"
        "s\<lparr>queue := AList.delete (item_id item) (queue s)\<rparr>"]
    show ?thesis
      by (auto simp: processItem_finish_def Let_def)
  qed
qed

lemma uploading_count_processItem:
  assumes "uploading_count s = 0"
  shows "uploading_count (processItem e item s) = 0"
proof -
  let ?i = "item_id item"
  from assms have quiet: "\<forall>kv \<in> set (queue s). status (snd kv) \<noteq> Uploading"
    by (simp add: uploading_count_0_iff)
  consider (offline) "\<not> isConnected e"
    | (exhausted) "isConnected e" "maxRetries \<le> retry_count item"
    | (attempt) "isConnected e" "retry_count item < maxRetries"
    by linarith
  then show ?thesis
  proof cases
    case offline
    with assms show ?thesis
      by (simp add: processItem_offline)
  next
    case exhausted
    then have "queue (processItem e item s)
        = AList.map_entry ?i (\<lambda>r. r\<lparr>status := Failed\<rparr>) (queue s)"
      by (simp add: processItem_exhausted updateItemStatus_def truthy_def)
    with quiet_map_entry [OF quiet, of "\<lambda>r. r\<lparr>status := Failed\<rparr>" ?i] show ?thesis
      by (simp add: uploading_count_0_iff)
  next
    case attempt
    let ?u = "\<lambda>r. r\<lparr>status := Uploading\<rparr>"
    let ?s1 = "updateItemStatus ?i Uploading None s"
    have q1: "queue ?s1 = AList.map_entry ?i ?u (queue s)"
      by (simp add: updateItemStatus_def truthy_def)
    from attempt have run: "processItem e item s = processItem_finish e item ?s1"
      by (simp add: processItem_def processItem_begin_def)
    from processItem_finish_queue [of e item ?s1]
    have "\<forall>kv \<in> set (queue (processItem_finish e item ?s1)). status (snd kv) \<noteq> Uploading"
    proof (elim disjE exE conjE)
      assume "queue (processItem_finish e item ?s1) = AList.delete ?i (queue ?s1)"
      with quiet_delete [OF quiet, of ?i] show ?thesis
        by (simp add: q1 delete_map_entry_same)
    next
      fix f
      assume f: "\<forall>v. status (f v) = Failed"
        and "queue (processItem_finish e item ?s1) = AList.map_entry ?i f (queue ?s1)"
      then have "queue (processItem_finish e item ?s1) = AList.map_entry ?i (f \<circ> ?u) (queue s)"
        by (simp add: q1 map_entry_twice)
      with f quiet_map_entry [OF quiet, of "f \<circ> ?u" ?i] show ?thesis
        by simp
    next
      fix f
      assume f: "\<forall>v. status (f v) = Failed"
        and "queue (processItem_finish e item ?s1)
          = AList.map_entry ?i f (AList.delete ?i (queue ?s1))"
      then have "queue (processItem_finish e item ?s1)
          = AList.map_entry ?i f (AList.delete ?i (queue s))"
        by (simp add: q1 delete_map_entry_same)
      with f quiet_map_entry [OF quiet_delete [OF quiet, of ?i], of f ?i] show ?thesis
        by simp
    qed
    with run show ?thesis
      by (simp add: uploading_count_0_iff)
  qed
qed

lemma uploading_count_step:
  assumes "uploading_count s = 0" and "status dbItem \<noteq> Uploading"
  shows "uploading_count (processQueue_step e dbItem s) = 0"
  using assms
  by (simp add: processQueue_step_def uploading_count_processItem uploading_count_set)

lemma uploading_count_batch:
  assumes "uploading_count s = 0" and "\<forall>r \<in> set items. status r \<noteq> Uploading"
  shows "uploading_count (processBatch w items s) = 0"
  using assms
  by (induction items arbitrary: s) (simp_all add: uploading_count_step)

lemma uploading_count_batch_instants:
  assumes "uploading_count s = 0" and "\<forall>r \<in> set items. status r \<noteq> Uploading"
  shows "\<forall>t \<in> set (processBatch_instants w items s). uploading_count t \<le> 1"
  using assms
proof (induction items arbitrary: s)
  case Nil
  then show ?case
    by simp
next
  case (Cons dbItem rest)
  let ?s0 = "s\<lparr>queue := AList.update (item_id dbItem) dbItem (queue s)\<rparr>"
  from Cons.prems have s0: "uploading_count ?s0 = 0"
    by (simp add: uploading_count_set)
  with uploading_count_begin [of "w dbItem" dbItem ?s0]
  have s1: "uploading_count (snd (processItem_begin (w dbItem) dbItem ?s0)) \<le> 1"
    by simp
  from Cons.prems have s2: "uploading_count (processQueue_step (w dbItem) dbItem s) = 0"
    by (simp add: uploading_count_step)
  with Cons.IH [of "processQueue_step (w dbItem) dbItem s"] Cons.prems
  have "\<forall>t \<in> set (processBatch_instants w rest (processQueue_step (w dbItem) dbItem s)).
      uploading_count t \<le> 1"
    by simp
  with s0 s1 s2 show ?case
    by simp
qed

lemma page_not_uploading:
  assumes "getPendingUploads fault limit offset tbl = Inr dbItems"
  shows "\<forall>r \<in> set (filter P dbItems). status r \<noteq> Uploading"
proof
  fix r
  assume "r \<in> set (filter P dbItems)"
  then have "r \<in> set dbItems"
    by simp
  from getPendingUploads_status [OF assms this] show "status r \<noteq> Uploading"
    by auto
qed

lemma processLoop_rejected:
  "getPendingUploads (read_fault p offset) (Some BATCH_SIZE) offset (db s) = Inl err \<Longrightarrow>
   processLoop p offset s = s"
  by (subst processLoop.simps) simp

lemma processLoop_empty_page:
  "getPendingUploads (read_fault p offset) (Some BATCH_SIZE) offset (db s) = Inr [] \<Longrightarrow>
   processLoop p offset s = s"
  by (subst processLoop.simps) simp

lemma processLoop_page:
  "getPendingUploads (read_fault p offset) (Some BATCH_SIZE) offset (db s) = Inr dbItems \<Longrightarrow>
   dbItems \<noteq> [] \<Longrightarrow>
   processLoop p offset s =
     processLoop p (offset + BATCH_SIZE)
       (processBatch (attempt p) (filter (\<lambda>dbItem. next_retry_at dbItem \<le> started p) dbItems) s)"
  by (subst processLoop.simps) simp

lemma processLoop_instants_rejected:
  "getPendingUploads (read_fault p offset) (Some BATCH_SIZE) offset (db s) = Inl err \<Longrightarrow>
   processLoop_instants p offset s = []"
  by (subst processLoop_instants.simps) simp

lemma processLoop_instants_empty_page:
  "getPendingUploads (read_fault p offset) (Some BATCH_SIZE) offset (db s) = Inr [] \<Longrightarrow>
   processLoop_instants p offset s = []"
  by (subst processLoop_instants.simps) simp

lemma processLoop_instants_page:
  "getPendingUploads (read_fault p offset) (Some BATCH_SIZE) offset (db s) = Inr dbItems \<Longrightarrow>
   dbItems \<noteq> [] \<Longrightarrow>
   processLoop_instants p offset s =
     processBatch_instants (attempt p)
       (filter (\<lambda>dbItem. next_retry_at dbItem \<le> started p) dbItems) s
     @ processLoop_instants p (offset + BATCH_SIZE)
         (processBatch (attempt p) (filter (\<lambda>dbItem. next_retry_at dbItem \<le> started p) dbItems) s)"
  by (subst processLoop_instants.simps) simp

lemma uploading_count_loop:
  "uploading_count s = 0 \<Longrightarrow> uploading_count (processLoop p offset s) = 0"
proof (induction p offset s rule: processLoop.induct)
  case (1 p offset s)
  show ?case
  proof (cases "getPendingUploads (read_fault p offset) (Some BATCH_SIZE) offset (db s)")
    case (Inl err)
    with "1.prems" show ?thesis
      by (simp add: processLoop_rejected)
  next
    case (Inr dbItems)
    show ?thesis
    proof (cases "dbItems = []")
      case True
      with Inr "1.prems" show ?thesis
        by (simp add: processLoop_empty_page)
    next
      case False
      let ?items = "filter (\<lambda>dbItem. next_retry_at dbItem \<le> started p) dbItems"
      have "uploading_count (processBatch (attempt p) ?items s) = 0"
        by (rule uploading_count_batch [OF "1.prems" page_not_uploading [OF Inr]])
      from "1.IH" [OF Inr False this] show ?thesis
        by (simp add: processLoop_page [OF Inr False])
    qed
  qed
qed

lemma uploading_count_loop_instants:
  "uploading_count s = 0 \<Longrightarrow> \<forall>t \<in> set (processLoop_instants p offset s). uploading_count t \<le> 1"
proof (induction p offset s rule: processLoop_instants.induct)
  case (1 p offset s)
  show ?case
  proof (cases "getPendingUploads (read_fault p offset) (Some BATCH_SIZE) offset (db s)")
    case (Inl err)
    then show ?thesis
      by (simp add: processLoop_instants_rejected)
  next
    case (Inr dbItems)
    show ?thesis
    proof (cases "dbItems = []")
      case True
      with Inr show ?thesis
        by (simp add: processLoop_instants_empty_page)
    next
      case False
      let ?items = "filter (\<lambda>dbItem. next_retry_at dbItem \<le> started p) dbItems"
      have here: "\<forall>t \<in> set (processBatch_instants (attempt p) ?items s). uploading_count t \<le> 1"
        by (rule uploading_count_batch_instants [OF "1.prems" page_not_uploading [OF Inr]])
      have after: "uploading_count (processBatch (attempt p) ?items s) = 0"
        by (rule uploading_count_batch [OF "1.prems" page_not_uploading [OF Inr]])
      from "1.IH" [OF Inr False after] here show ?thesis
        by (simp add: processLoop_instants_page [OF Inr False] ball_Un)
    qed
  qed
qed

subsection \<open>The flag of the pass\<close>

lemma isProcessing_catch: "isProcessing (processItem_catch e item msg s) = isProcessing s"
  by (simp add: processItem_catch_def persist_failure_def write_item_def updateItemStatus_def
      scheduleQueueProcessing_def Let_def split: sum.splits)

lemma isProcessing_finish: "isProcessing (processItem_finish e item s) = isProcessing s"
  by (simp add: processItem_finish_def isProcessing_catch Let_def split: option.splits sum.splits)

lemma isProcessing_processItem: "isProcessing (processItem e item s) = isProcessing s"
  by (simp add: processItem_def processItem_begin_def isProcessing_finish updateItemStatus_def)

lemma isProcessing_begin: "isProcessing (snd (processItem_begin e item s)) = isProcessing s"
  by (simp add: processItem_begin_def updateItemStatus_def)

lemma isProcessing_batch: "isProcessing (processBatch w items s) = isProcessing s"
  by (induction items arbitrary: s) (simp_all add: processQueue_step_def isProcessing_processItem)

lemma isProcessing_batch_instants:
  "\<forall>t \<in> set (processBatch_instants w items s). isProcessing t = isProcessing s"
  by (induction items arbitrary: s)
    (simp_all add: processQueue_step_def isProcessing_processItem isProcessing_begin)

lemma isProcessing_loop_instants:
  "\<forall>t \<in> set (processLoop_instants p offset s). isProcessing t = isProcessing s"
proof (induction p offset s rule: processLoop_instants.induct)
  case (1 p offset s)
  show ?case
  proof (cases "getPendingUploads (read_fault p offset) (Some BATCH_SIZE) offset (db s)")
    case (Inl err)
    then show ?thesis
      by (simp add: processLoop_instants_rejected)
  next
    case (Inr dbItems)
    show ?thesis
    proof (cases "dbItems = []")
      case True
      with Inr show ?thesis
        by (simp add: processLoop_instants_empty_page)
    next
      case False
      let ?items = "filter (\<lambda>dbItem. next_retry_at dbItem \<le> started p) dbItems"
      have here: "\<forall>t \<in> set (processBatch_instants (attempt p) ?items s).
          isProcessing t = isProcessing s"
        by (rule isProcessing_batch_instants)
      from "1.IH" [OF Inr False] here show ?thesis
        by (simp add: processLoop_instants_page [OF Inr False] ball_Un isProcessing_batch)
    qed
  qed
qed

subsection \<open>What an attempt leaves alone\<close>

lemma filter_map_other:
  assumes "\<forall>r. item_id (g r) = item_id r" and "i \<noteq> j"
  shows "filter (\<lambda>r. item_id r = i) (map (\<lambda>r. if item_id r = j then g r else r) tbl)
       = filter (\<lambda>r. item_id r = i) tbl"
  using assms by (induction tbl) auto

lemma update_other_rows:
  assumes "updateUploadQueueStatus fault j st rc m c tbl = Inr tbl'" and "i \<noteq> j"
  shows "filter (\<lambda>r. item_id r = i) tbl' = filter (\<lambda>r. item_id r = i) tbl"
proof -
  let ?g = "\<lambda>r. r\<lparr>status := st,
      retry_count := (case rc of None \<Rightarrow> retry_count r | Some n \<Rightarrow> n),
      error_message := (case m of None \<Rightarrow> error_message r | Some x \<Rightarrow> x),
      uploaded_at := (if st = Completed then Some c else uploaded_at r)\<rparr>"
  from assms(1) have written: "tbl' = map (\<lambda>r. if item_id r = j then ?g r else r) tbl"
    by (cases fault) (simp_all add: updateUploadQueueStatus_def)
  have "\<forall>r. item_id (?g r) = item_id r"
    by simp
  from filter_map_other [OF this assms(2)] show ?thesis
    by (simp only: written)
qed

lemma persist_failure_other_rows:
  "i \<noteq> j \<Longrightarrow>
   filter (\<lambda>r. item_id r = i) (db (persist_failure e j rc msg s)) = filter (\<lambda>r. item_id r = i) (db s)"
  by (auto simp: persist_failure_def dest: update_other_rows split: sum.splits)

lemma catch_other_rows:
  "i \<noteq> item_id item \<Longrightarrow>
   filter (\<lambda>r. item_id r = i) (db (processItem_catch e item msg s))
     = filter (\<lambda>r. item_id r = i) (db s)"
  by (simp add: processItem_catch_def Let_def scheduleQueueProcessing_def
      persist_failure_other_rows write_item_def updateItemStatus_def)

lemma finish_other_rows:
  assumes "i \<noteq> item_id item"
  shows "filter (\<lambda>r. item_id r = i) (db (processItem_finish e item s))
     = filter (\<lambda>r. item_id r = i) (db s)"
proof (cases "transfer_error e item")
  case (Some msg)
  with assms show ?thesis
    by (simp add: processItem_finish_def catch_other_rows)
next
  case None
  show ?thesis
  proof (cases "updateUploadQueueStatus (completed_write_fault e) (item_id item) Completed
      None None (clock e) (db s)")
    case (Inl err)
    with None assms show ?thesis
      by (simp add: processItem_finish_def Let_def catch_other_rows)
  next
    case (Inr tbl)
    with None update_other_rows [OF Inr assms] show ?thesis
      by (simp add: processItem_finish_def Let_def)
  qed
qed

lemma processItem_other_rows:
  "i \<noteq> item_id item \<Longrightarrow>
   filter (\<lambda>r. item_id r = i) (db (processItem e item s)) = filter (\<lambda>r. item_id r = i) (db s)"
  by (simp add: processItem_def processItem_begin_def finish_other_rows updateItemStatus_def)

lemma processItem_other_entry:
  assumes "i \<noteq> item_id item"
  shows "map_of (queue (processItem e item s)) i = map_of (queue s) i"
proof -
  let ?j = "item_id item"
  have entry: "map_of (AList.map_entry ?j f al) i = map_of al i" for f al
    using assms by (simp add: AList.map_of_map_entry)
  have del: "map_of (AList.delete ?j al) i = map_of al i" for al
    using assms by (simp add: AList.delete_conv')
  have finish: "map_of (queue (processItem_finish e item t)) i = map_of (queue t) i" for t
    using processItem_finish_queue [of e item t] by (auto simp: entry del)
  show ?thesis
    by (simp add: processItem_def processItem_begin_def finish updateItemStatus_def entry)
qed

lemma step_other:
  assumes "i \<noteq> item_id dbItem"
  shows "filter (\<lambda>r. item_id r = i) (db (processQueue_step e dbItem s))
       = filter (\<lambda>r. item_id r = i) (db s)"
    and "map_of (queue (processQueue_step e dbItem s)) i = map_of (queue s) i"
  using assms
  by (simp_all add: processQueue_step_def processItem_other_rows processItem_other_entry
      AList.update_conv')

lemma batch_other:
  assumes "\<forall>r \<in> set items. item_id r \<noteq> i"
  shows "filter (\<lambda>r. item_id r = i) (db (processBatch w items s))
       = filter (\<lambda>r. item_id r = i) (db s)
     \<and> map_of (queue (processBatch w items s)) i = map_of (queue s) i"
  using assms
proof (induction items arbitrary: s)
  case Nil
  then show ?case
    by simp
next
  case (Cons dbItem rest)
  then have "i \<noteq> item_id dbItem"
    by auto
  from step_other [OF this, of "w dbItem" s] Cons.IH [of "processQueue_step (w dbItem) dbItem s"]
    Cons.prems
  show ?case
    by simp
qed

lemma loop_other:
  assumes "\<forall>r \<in> set (db s). item_id r = i \<longrightarrow> status r = Completed"
  shows "filter (\<lambda>r. item_id r = i) (db (processLoop p offset s))
       = filter (\<lambda>r. item_id r = i) (db s)
     \<and> map_of (queue (processLoop p offset s)) i = map_of (queue s) i"
  using assms
proof (induction p offset s rule: processLoop.induct)
  case (1 p offset s)
  show ?case
  proof (cases "getPendingUploads (read_fault p offset) (Some BATCH_SIZE) offset (db s)")
    case (Inl err)
    then show ?thesis
      by (simp add: processLoop_rejected)
  next
    case (Inr dbItems)
    show ?thesis
    proof (cases "dbItems = []")
      case True
      with Inr show ?thesis
        by (simp add: processLoop_empty_page)
    next
      case False
      let ?items = "filter (\<lambda>dbItem. next_retry_at dbItem \<le> started p) dbItems"
      let ?s' = "processBatch (attempt p) ?items s"
      have others: "\<forall>r \<in> set ?items. item_id r \<noteq> i"
      proof
        fix r
        assume "r \<in> set ?items"
        then have "r \<in> set dbItems"
          by simp
        from getPendingUploads_status [OF Inr this] "1.prems" show "item_id r \<noteq> i"
          by auto
      qed
      from batch_other [OF others, of "attempt p" s]
      have same: "filter (\<lambda>r. item_id r = i) (db ?s') = filter (\<lambda>r. item_id r = i) (db s)"
        and entry: "map_of (queue ?s') i = map_of (queue s) i"
        by simp_all
      have "\<forall>r \<in> set (db ?s'). item_id r = i \<longrightarrow> status r = Completed"
      proof (intro ballI impI)
        fix r
        assume "r \<in> set (db ?s')" and "item_id r = i"
        then have "r \<in> set (filter (\<lambda>r. item_id r = i) (db ?s'))"
          by simp
        with same have "r \<in> set (db s)"
          by simp
        with \<open>item_id r = i\<close> "1.prems" show "status r = Completed"
          by simp
      qed
      from "1.IH" [OF Inr False this] same entry show ?thesis
        by (simp add: processLoop_page [OF Inr False])
    qed
  qed
qed

lemma processQueue_other:
  assumes "\<forall>r \<in> set (db s). item_id r = i \<longrightarrow> status r = Completed"
  shows "filter (\<lambda>r. item_id r = i) (db (processQueue p s)) = filter (\<lambda>r. item_id r = i) (db s)
     \<and> map_of (queue (processQueue p s)) i = map_of (queue s) i"
  using loop_other [of "s\<lparr>isProcessing := True\<rparr>" i p 0] assms
  by (simp add: processQueue_def)

lemma later_passes_other:
  assumes "\<forall>r \<in> set (db s). item_id r = i \<longrightarrow> status r = Completed"
  shows "filter (\<lambda>r. item_id r = i) (db (fold processQueue ps s)) = filter (\<lambda>r. item_id r = i) (db s)
     \<and> map_of (queue (fold processQueue ps s)) i = map_of (queue s) i"
  using assms
proof (induction ps arbitrary: s)
  case Nil
  then show ?case
    by simp
next
  case (Cons p ps)
  from processQueue_other [OF Cons.prems, of p]
  have same: "filter (\<lambda>r. item_id r = i) (db (processQueue p s)) = filter (\<lambda>r. item_id r = i) (db s)"
    and entry: "map_of (queue (processQueue p s)) i = map_of (queue s) i"
    by simp_all
  have "\<forall>r \<in> set (db (processQueue p s)). item_id r = i \<longrightarrow> status r = Completed"
  proof (intro ballI impI)
    fix r
    assume "r \<in> set (db (processQueue p s))" and "item_id r = i"
    then have "r \<in> set (filter (\<lambda>r. item_id r = i) (db (processQueue p s)))"
      by simp
    with same have "r \<in> set (db s)"
      by simp
    with \<open>item_id r = i\<close> Cons.prems show "status r = Completed"
      by simp
  qed
  from Cons.IH [OF this] same entry show ?case
    by simp
qed

subsection \<open>initialize\<close>

text \<open>
  The records \<^verbatim>\<open>loadQueueFromDatabase\<close> gets from \<^verbatim>\<open>getPendingUploads()\<close> are pending or failed,
  so its branch for \<^verbatim>\<open>uploading\<close> records is never taken: the load writes nothing to the
  table.
\<close>

lemma load_records_db:
  "\<forall>r \<in> set records. status r \<noteq> Uploading \<Longrightarrow> db (snd (load_records fault c records s)) = db s"
  by (induction records arbitrary: s) simp_all

lemma loadQueueFromDatabase_db: "db (snd (loadQueueFromDatabase rfault ufault c s)) = db s"
proof (cases "getPendingUploads rfault None 0 (db s)")
  case (Inl err)
  then show ?thesis
    by (simp add: loadQueueFromDatabase_def)
next
  case (Inr records)
  then have "\<forall>r \<in> set records. status r \<noteq> Uploading"
    by (auto dest: getPendingUploads_status)
  with Inr show ?thesis
    by (simp add: loadQueueFromDatabase_def load_records_db)
qed

text \<open>
  C1 (the code does not do it). The table holds item \<open>a\<close> with status \<^verbatim>\<open>uploading\<close> and
  retry count 1. After \<^verbatim>\<open>initialize()\<close> the map is empty, so the item was not loaded, and
  the row is as it was, still \<^verbatim>\<open>uploading\<close>: the query of \<^verbatim>\<open>getPendingUploads\<close> selects
  pending and failed rows only.
\<close>

theorem initialize_skips_uploading:
  "map (\<lambda>r. (item_id r, status r, retry_count r)) (db interrupted) = [(''a'', Uploading, 1)]
   \<and> getQueueItems (initialize None None 20 True (world True True 20) interrupted) = []
   \<and> getQueueItem ''a'' (initialize None None 20 True (world True True 20) interrupted) = None
   \<and> db (initialize None None 20 True (world True True 20) interrupted) = db interrupted"
  by (simp add: interrupted_def initialize_def loadQueueFromDatabase_def
      setupNetworkMonitoring_def engine_defs sample_defs)

subsection \<open>The pages of a pass\<close>

text \<open>
  C2 (the code does not do it). Items \<open>a\<close> to \<open>f\<close> are enqueued while the network is
  down, item \<open>g\<close> while it is up, and every transfer that is called succeeds. The pass
  started by the last call completes \<open>a\<close> to \<open>e\<close>, then reads the page at offset 5 of the
  two rows still pending, finds it empty and ends: \<open>f\<close> and \<open>g\<close> stay pending in the
  table and in the map, no timer is armed and no pass is running.
\<close>

theorem processQueue_skips_pending:
  "map (\<lambda>r. (item_id r, status r)) (db (enqueue_sample ''g'' 16 True backlog))
     = [(''a'', Completed), (''b'', Completed), (''c'', Completed), (''d'', Completed),
        (''e'', Completed), (''f'', Pending), (''g'', Pending)]
   \<and> map (\<lambda>r. (item_id r, status r)) (getQueueItems (enqueue_sample ''g'' 16 True backlog))
     = [(''f'', Pending), (''g'', Pending)]
   \<and> retryTimer (enqueue_sample ''g'' 16 True backlog) = None
   \<and> isProcessing (enqueue_sample ''g'' 16 True backlog) = False"
  by (simp add: backlog_eq enqueue_sample_def engine_defs sample_defs)

text \<open>
  The same with the network up all the time. Items \<open>b\<close> to \<open>g\<close> are enqueued while the
  pass started for \<open>a\<close> awaits the transfers of \<open>a\<close>; their calls of \<^verbatim>\<open>processQueue\<close> return
  at the guard. The pass completes \<open>a\<close>, reads the page at offset 5 of the six rows then
  pending, which holds \<open>g\<close> alone, completes \<open>g\<close>, finds the page at offset 10 empty and
  ends: \<open>b\<close> to \<open>f\<close> stay pending.
\<close>

lemma enqueued_meanwhile_eq:
  "enqueued_meanwhile =
     \<lparr>queue = (''a'', sample_row\<lparr>status := Uploading\<rparr>)
        # map (\<lambda>(i, c). (i, queueItem (sample_input i) c))
            [(''b'', 11), (''c'', 12), (''d'', 13), (''e'', 14), (''f'', 15), (''g'', 16)],
      isProcessing = True, networkListener = False, retryTimer = None,
      db = map (\<lambda>(i, c). queueItem (sample_input i) c)
        [(''a'', 10), (''b'', 11), (''c'', 12), (''d'', 13), (''e'', 14), (''f'', 15),
         (''g'', 16)]\<rparr>"
  by (simp add: enqueued_meanwhile_def awaiting_first_transfer_def enqueue_sample_def
      engine_defs sample_defs)

lemma pending_left_behind_while_online:
  "map (\<lambda>r. (item_id r, status r)) (db pass_resumed)
     = [(''a'', Completed), (''b'', Pending), (''c'', Pending), (''d'', Pending),
        (''e'', Pending), (''f'', Pending), (''g'', Completed)]
   \<and> map (\<lambda>r. (item_id r, status r)) (getQueueItems pass_resumed)
     = [(''b'', Pending), (''c'', Pending), (''d'', Pending), (''e'', Pending), (''f'', Pending)]
   \<and> retryTimer pass_resumed = None
   \<and> isProcessing pass_resumed = False"
  by (simp add: pass_resumed_def enqueued_meanwhile_eq engine_defs sample_defs)

subsection \<open>Backoff\<close>

text \<open>
  C3 (the code does not do it). Item \<open>a\<close> is pending with retry count 0; the pass at
  instant 1000 finds the network up and the metadata transfer refused. Afterwards the
  object in the map has \<^verbatim>\<open>next_retry_at\<close> = 1000 + 5000, the row has status failed, retry
  count 1 and the message, and a timer of 5000 is armed; but \<^verbatim>\<open>next_retry_at\<close> of the row
  is still 0, since \<^verbatim>\<open>updateUploadQueueStatus\<close> has no such column to set. A pass at instant
  1001 therefore attempts the item again at once.
\<close>

theorem next_retry_at_not_persisted:
  "map (\<lambda>r. (status r, retry_count r, error_message r, next_retry_at r))
       (getQueueItems (processQueue (world True False 1000) queued_offline))
     = [(Failed, 1, Some ''HTTP 500: Unknown error'', 6000)]
   \<and> map (\<lambda>r. (status r, retry_count r, error_message r, next_retry_at r))
       (db (processQueue (world True False 1000) queued_offline))
     = [(Failed, 1, Some ''HTTP 500: Unknown error'', 0)]
   \<and> retryTimer (processQueue (world True False 1000) queued_offline) = Some 5000
   \<and> map retry_count
       (db (processQueue (world True False 1001)
          (processQueue (world True False 1000) queued_offline))) = [2]"
  by (simp add: queued_offline_eq engine_defs sample_defs)

subsection \<open>Which transitions reach the table\<close>

text \<open>
  C4 (as stated it does not hold). Item \<open>a\<close> is pending in the map and in the table.
  When its attempt has marked it and awaits the transfers, the item of the map is
  \<^verbatim>\<open>uploading\<close> and the row of the table is still \<^verbatim>\<open>pending\<close>.
\<close>

theorem uploading_persisted_counterexample:
  "fst (processItem_begin (sample_attempt True True 20) sample_row queued_offline)
   \<and> map status
        (getQueueItems (snd (processItem_begin (sample_attempt True True 20) sample_row
           queued_offline))) = [Uploading]
   \<and> map status
        (db (snd (processItem_begin (sample_attempt True True 20) sample_row queued_offline)))
       = [Pending]"
  by (simp add: queued_offline_eq engine_defs sample_defs)

text \<open>
  C4, amended. The part of an attempt before the transfers never writes to the table.
  When it goes on (network up, retry count below the limit) it marks the item of the map
  \<^verbatim>\<open>uploading\<close>; at the retry limit it marks the item of the map \<^verbatim>\<open>failed\<close> and the attempt
  is over. The table is written when the transfers have answered, before the attempt
  returns: status completed with \<^verbatim>\<open>uploaded_at\<close> when they succeeded, status failed with the
  new retry count and the message when they did not.
\<close>

theorem transitions_written_at_end_of_attempt:
  "db (snd (processItem_begin e item s)) = db s
   \<and> (isConnected e \<and> retry_count item < maxRetries \<longrightarrow>
        fst (processItem_begin e item s)
        \<and> getQueueItem (item_id item) (snd (processItem_begin e item s))
            = map_option (\<lambda>r. r\<lparr>status := Uploading\<rparr>) (getQueueItem (item_id item) s))
   \<and> (isConnected e \<and> maxRetries \<le> retry_count item \<longrightarrow>
        processItem e item s = snd (processItem_begin e item s)
        \<and> getQueueItem (item_id item) (processItem e item s)
            = map_option (\<lambda>r. r\<lparr>status := Failed\<rparr>) (getQueueItem (item_id item) s))
   \<and> (isConnected e \<and> retry_count item < maxRetries \<and> transfer_error e item = None
        \<and> completed_write_fault e = None \<longrightarrow>
        db (processItem e item s)
          = map (\<lambda>r. if item_id r = item_id item
                      then r\<lparr>status := Completed, uploaded_at := Some (clock e)\<rparr> else r) (db s))
   \<and> (isConnected e \<and> retry_count item < maxRetries \<and> transfer_error e item = Some msg
        \<and> failed_write_fault e = None \<longrightarrow>
        db (processItem e item s)
          = map (\<lambda>r. if item_id r = item_id item
                      then r\<lparr>status := Failed, retry_count := retry_count item + 1,
                             error_message := Some msg\<rparr> else r) (db s))"
proof -
  have entry: "map_of (AList.map_entry k f al) k = map_option f (map_of al k)" for k f
    and al :: "(string \<times> upload_record) list"
    by (simp add: AList.map_of_map_entry map_option_case)
  have untouched: "db (snd (processItem_begin e item s)) = db s"
    by (simp add: processItem_begin_def updateItemStatus_def)
  have marked: "fst (processItem_begin e item s)
      \<and> getQueueItem (item_id item) (snd (processItem_begin e item s))
          = map_option (\<lambda>r. r\<lparr>status := Uploading\<rparr>) (getQueueItem (item_id item) s)"
    if "isConnected e" and "retry_count item < maxRetries"
    using that
    by (simp add: processItem_begin_def updateItemStatus_def getQueueItem_def truthy_def entry)
  have limit: "processItem e item s = snd (processItem_begin e item s)
      \<and> getQueueItem (item_id item) (processItem e item s)
          = map_option (\<lambda>r. r\<lparr>status := Failed\<rparr>) (getQueueItem (item_id item) s)"
    if "isConnected e" and "maxRetries \<le> retry_count item"
    using that
    by (simp add: processItem_def processItem_begin_def updateItemStatus_def getQueueItem_def
        truthy_def entry)
  have completed: "db (processItem e item s)
      = map (\<lambda>r. if item_id r = item_id item
                  then r\<lparr>status := Completed, uploaded_at := Some (clock e)\<rparr> else r) (db s)"
    if "isConnected e" and "retry_count item < maxRetries" and "transfer_error e item = None"
      and "completed_write_fault e = None"
    by (simp add: processItem_completed [OF that])
  have failed: "db (processItem e item s)
      = map (\<lambda>r. if item_id r = item_id item
                  then r\<lparr>status := Failed, retry_count := retry_count item + 1,
                         error_message := Some msg\<rparr> else r) (db s)"
    if "isConnected e" and "retry_count item < maxRetries" and "transfer_error e item = Some msg"
      and "failed_write_fault e = None"
    by (rule processItem_failed_db [OF that])
  from untouched marked limit completed failed show ?thesis
    by blast
qed

theorem transitions_written_at_end_of_attempt_witness:
  "isConnected (sample_attempt True True 20) \<and> retry_count sample_row < maxRetries
   \<and> transfer_error (sample_attempt True True 20) sample_row = None
   \<and> completed_write_fault (sample_attempt True True 20) = None
   \<and> db (snd (processItem_begin (sample_attempt True True 20) sample_row queued_offline))
       = db queued_offline
   \<and> getQueueItem (item_id sample_row)
        (snd (processItem_begin (sample_attempt True True 20) sample_row queued_offline))
       = Some (sample_row\<lparr>status := Uploading\<rparr>)
   \<and> db (processItem (sample_attempt True True 20) sample_row queued_offline)
       = [sample_row\<lparr>status := Completed, uploaded_at := Some 20\<rparr>]
   \<and> transfer_error (sample_attempt True False 20) sample_row = Some ''HTTP 500: Unknown error''
   \<and> db (processItem (sample_attempt True False 20) sample_row queued_offline)
       = [sample_row\<lparr>status := Failed, retry_count := 1,
            error_message := Some ''HTTP 500: Unknown error''\<rparr>]"
proof -
  have up: "isConnected (sample_attempt True b 20)" for b
    by (simp add: sample_attempt_def)
  have below: "retry_count sample_row < maxRetries"
    by (simp add: sample_row_def queueItem_def maxRetries_def)
  have ok: "transfer_error (sample_attempt True True 20) sample_row = None"
    by (simp add: transfer_error_def sample_attempt_def accepted_def)
  have bad: "transfer_error (sample_attempt True False 20) sample_row
      = Some ''HTTP 500: Unknown error''"
    by (simp add: transfer_error_def sample_attempt_def refused_def or_else_def)
  have served: "completed_write_fault (sample_attempt True True 20) = None"
    "failed_write_fault (sample_attempt True False 20) = None"
    by (simp_all add: sample_attempt_def)
  have state: "db queued_offline = [sample_row]" "getQueueItem (item_id sample_row) queued_offline
      = Some sample_row" "retry_count sample_row = 0"
    by (simp_all add: queued_offline_eq sample_row_def getQueueItem_def queueItem_def sample_input_def)
  note good = transitions_written_at_end_of_attempt
    [of "sample_attempt True True 20" sample_row queued_offline]
  note poor = transitions_written_at_end_of_attempt
    [of "sample_attempt True False 20" sample_row queued_offline "''HTTP 500: Unknown error''"]
  from good up below ok served state
  have "db (snd (processItem_begin (sample_attempt True True 20) sample_row queued_offline))
        = db queued_offline"
    and "getQueueItem (item_id sample_row)
        (snd (processItem_begin (sample_attempt True True 20) sample_row queued_offline))
        = Some (sample_row\<lparr>status := Uploading\<rparr>)"
    and "db (processItem (sample_attempt True True 20) sample_row queued_offline)
        = [sample_row\<lparr>status := Completed, uploaded_at := Some 20\<rparr>]"
    by (simp_all add: sample_attempt_def)
  moreover from poor up below bad served state
  have "db (processItem (sample_attempt True False 20) sample_row queued_offline)
      = [sample_row\<lparr>status := Failed, retry_count := 1,
           error_message := Some ''HTTP 500: Unknown error''\<rparr>]"
    by simp
  ultimately show ?thesis
    using up below ok bad served by blast
qed

subsection \<open>addToQueue\<close>

text \<open>
  C5 (as stated it does not hold). At the instant \<^verbatim>\<open>addToQueue\<close> issues the insert, the
  item is already in the map and not yet in the table: the map is written first.
\<close>

theorem addToQueue_persists_first_counterexample:
  "getQueueItem ''a'' (addToQueue_set (sample_input ''a'') 10 initial_state)
     = Some (queueItem (sample_input ''a'') 10)
   \<and> db (addToQueue_set (sample_input ''a'') 10 initial_state) = []"
  by (simp add: addToQueue_set_def getQueueItem_def initial_state_def sample_input_def)

text \<open>
  C5, amended. \<^verbatim>\<open>addToQueue\<close> fills in status pending, retry count 0, the creation
  instant and next retry 0, puts the item into the map first (the table is untouched at
  that instant) and then inserts it into the table. When the insert is rejected, the call
  throws that error, the table is as before and the id is deleted from the map. When the
  insert succeeds, the new row is the last of the table and a pass is started on the state
  that holds the item in both.
\<close>

theorem addToQueue_memory_then_store:
  "getQueueItem (item_id item) (addToQueue_set item now s) = Some (queueItem item now)
   \<and> db (addToQueue_set item now s) = db s
   \<and> status (queueItem item now) = Pending \<and> retry_count (queueItem item now) = 0
   \<and> created_at (queueItem item now) = now \<and> next_retry_at (queueItem item now) = 0
   \<and> (addToUploadQueue fault (queueItem item now) (db s) = Inl err \<longrightarrow>
         addToQueue item now fault p s
           = (Some err, s\<lparr>queue := AList.delete (item_id item) (queue s)\<rparr>)
         \<and> getQueueItem (item_id item) (snd (addToQueue item now fault p s)) = None)
   \<and> (addToUploadQueue fault (queueItem item now) (db s) = Inr tbl \<longrightarrow>
         tbl = db s @ [queueItem item now]
         \<and> addToQueue item now fault p s
           = (None, processQueue p
                (s\<lparr>queue := AList.update (item_id item) (queueItem item now) (queue s),
                   db := db s @ [queueItem item now]\<rparr>)))"
  by (auto simp: addToQueue_def addToQueue_set_def Let_def getQueueItem_def AList.update_conv'
      AList.delete_update_same AList.delete_conv' addToUploadQueue_def queueItem_def
      split: option.splits if_splits)

theorem addToQueue_memory_then_store_witness:
  "addToUploadQueue (Some ''disk I/O error'') (queueItem (sample_input ''b'') 20) (db queued_offline)
     = Inl (StoreFailure ''disk I/O error'')
   \<and> fst (addToQueue (sample_input ''b'') 20 (Some ''disk I/O error'') (world False True 20)
        queued_offline) = Some (StoreFailure ''disk I/O error'')
   \<and> getQueueItem (item_id (sample_input ''b''))
        (snd (addToQueue (sample_input ''b'') 20 (Some ''disk I/O error'')
           (world False True 20) queued_offline)) = None
   \<and> addToUploadQueue None (queueItem (sample_input ''b'') 20) (db queued_offline)
     = Inr (db queued_offline @ [queueItem (sample_input ''b'') 20])
   \<and> fst (addToQueue (sample_input ''b'') 20 None (world False True 20) queued_offline) = None"
proof -
  have bad: "addToUploadQueue (Some ''disk I/O error'') (queueItem (sample_input ''b'') 20)
      (db queued_offline) = Inl (StoreFailure ''disk I/O error'')"
    by (simp add: addToUploadQueue_def)
  have good: "addToUploadQueue None (queueItem (sample_input ''b'') 20) (db queued_offline)
      = Inr (db queued_offline @ [queueItem (sample_input ''b'') 20])"
    by (simp add: addToUploadQueue_def queued_offline_eq queueItem_def sample_input_def)
  from bad addToQueue_memory_then_store [of "sample_input ''b''" 20 queued_offline
      "Some ''disk I/O error''" "StoreFailure ''disk I/O error''" "world False True 20"]
  have thrown: "fst (addToQueue (sample_input ''b'') 20 (Some ''disk I/O error'')
        (world False True 20) queued_offline) = Some (StoreFailure ''disk I/O error'')
      \<and> getQueueItem (item_id (sample_input ''b''))
        (snd (addToQueue (sample_input ''b'') 20 (Some ''disk I/O error'')
           (world False True 20) queued_offline)) = None"
    by auto
  from good addToQueue_memory_then_store [of "sample_input ''b''" 20 queued_offline None _
      "world False True 20" "db queued_offline @ [queueItem (sample_input ''b'') 20]"]
  have resolved: "fst (addToQueue (sample_input ''b'') 20 None (world False True 20)
      queued_offline) = None"
    by auto
  from bad good thrown resolved show ?thesis
    by blast
qed

text \<open>
  C9. When the id of the new item is already the id of a row of the table, the insert is
  rejected by the primary key, \<^verbatim>\<open>addToQueue\<close> throws, the table is as before, and the id
  is absent from the map afterwards: the map is the old one without that id, so an
  entry that an earlier call had put there under the same id is gone too.
\<close>

theorem addToQueue_duplicate_id:
  assumes "item_id item \<in> item_id ` set (db s)"
  shows "fst (addToQueue item now None p s) = Some ConstraintFailed
       \<and> fst (addToQueue item now fault p s) \<noteq> None
       \<and> getQueueItem (item_id item) (snd (addToQueue item now fault p s)) = None
       \<and> queue (snd (addToQueue item now fault p s)) = AList.delete (item_id item) (queue s)
       \<and> db (snd (addToQueue item now fault p s)) = db s"
  using assms
  by (auto simp: addToQueue_def addToQueue_set_def addToUploadQueue_def Let_def getQueueItem_def
      queueItem_def image_iff AList.delete_update_same AList.delete_conv' split: option.splits)

theorem addToQueue_duplicate_id_witness:
  "item_id (sample_input ''a'') \<in> item_id ` set (db queued_offline)
   \<and> getQueueItem ''a'' queued_offline = Some (queueItem (sample_input ''a'') 10)
   \<and> fst (addToQueue (sample_input ''a'') 20 None (world True True 20) queued_offline)
       = Some ConstraintFailed
   \<and> getQueueItem ''a''
        (snd (addToQueue (sample_input ''a'') 20 None (world True True 20) queued_offline)) = None
   \<and> db (snd (addToQueue (sample_input ''a'') 20 None (world True True 20) queued_offline))
       = db queued_offline"
proof -
  have dup: "item_id (sample_input ''a'') \<in> item_id ` set (db queued_offline)"
    by (simp add: queued_offline_eq queueItem_def sample_input_def)
  have before: "getQueueItem ''a'' queued_offline = Some (queueItem (sample_input ''a'') 10)"
    by (simp add: queued_offline_eq getQueueItem_def)
  from addToQueue_duplicate_id [OF dup, of 20 "world True True 20" None] dup before
  show ?thesis
    by (simp add: sample_input_def)
qed

subsection \<open>The outcome of an attempt\<close>

lemma completed_rows:
  "\<forall>r \<in> set (map (\<lambda>r. if item_id r = i
        then r\<lparr>status := Completed, uploaded_at := Some c\<rparr> else r) tbl).
     item_id r = i \<longrightarrow> status r = Completed"
proof (intro ballI impI)
  let ?g = "\<lambda>r. if item_id r = i then r\<lparr>status := Completed, uploaded_at := Some c\<rparr> else r"
  fix r
  assume "r \<in> set (map ?g tbl)" and i: "item_id r = i"
  then have "r \<in> ?g ` set tbl"
    by (simp only: set_map)
  then obtain x where x: "r = ?g x"
    by (rule imageE)
  with i show "status r = Completed"
    by (cases "item_id x = i") simp_all
qed

text \<open>
  C6. Take an attempt that finds the network up, an item below the retry limit and a
  table that serves its writes. If the metadata transfer reports success and either the
  item has no video or the video transfer reports success, the attempt succeeds: the item
  is deleted from the map, its row gets status completed and \<^verbatim>\<open>uploaded_at\<close> = the current
  instant, no timer is touched, and whatever passes follow, none of them changes that row
  or brings the item back into the map. In every other case the attempt fails: the row
  gets status failed, the retry count plus one and an error message.
\<close>

theorem attempt_succeeds_iff_transfers_succeed:
  assumes "isConnected e" and "retry_count item < maxRetries"
    and "completed_write_fault e = None" and "failed_write_fault e = None"
  shows "(success (metadataResponse e) \<and> (\<not> has_video item \<or> success (videoResponse e)) \<longrightarrow>
            getQueueItem (item_id item) (processItem e item s) = None
          \<and> db (processItem e item s)
              = map (\<lambda>r. if item_id r = item_id item
                          then r\<lparr>status := Completed, uploaded_at := Some (clock e)\<rparr> else r) (db s)
          \<and> retryTimer (processItem e item s) = retryTimer s
          \<and> (\<forall>ps. filter (\<lambda>r. item_id r = item_id item)
                      (db (fold processQueue ps (processItem e item s)))
                    = filter (\<lambda>r. item_id r = item_id item) (db (processItem e item s))
                  \<and> getQueueItem (item_id item) (fold processQueue ps (processItem e item s)) = None))
       \<and> (\<not> (success (metadataResponse e) \<and> (\<not> has_video item \<or> success (videoResponse e))) \<longrightarrow>
            (\<exists>msg. db (processItem e item s)
              = map (\<lambda>r. if item_id r = item_id item
                          then r\<lparr>status := Failed, retry_count := retry_count item + 1,
                                 error_message := Some msg\<rparr> else r) (db s)))"
proof (cases "transfer_error e item")
  case None
  let ?s' = "processItem e item s"
  from None have ok: "success (metadataResponse e) \<and> (\<not> has_video item \<or> success (videoResponse e))"
    by (simp add: transfer_error_None_iff)
  note result = processItem_completed [OF assms(1,2) None assms(3), of s]
  have gone: "getQueueItem (item_id item) ?s' = None"
    by (simp add: result getQueueItem_def AList.delete_conv')
  have row: "db ?s' = map (\<lambda>r. if item_id r = item_id item
      then r\<lparr>status := Completed, uploaded_at := Some (clock e)\<rparr> else r) (db s)"
    by (simp add: result)
  have timer: "retryTimer ?s' = retryTimer s"
    by (simp add: result)
  have "\<forall>r \<in> set (db ?s'). item_id r = item_id item \<longrightarrow> status r = Completed"
    unfolding row by (rule completed_rows)
  from later_passes_other [OF this] gone
  have "\<forall>ps. filter (\<lambda>r. item_id r = item_id item) (db (fold processQueue ps ?s'))
        = filter (\<lambda>r. item_id r = item_id item) (db ?s')
      \<and> getQueueItem (item_id item) (fold processQueue ps ?s') = None"
    by (simp add: getQueueItem_def)
  with ok gone row timer show ?thesis
    by blast
next
  case (Some msg)
  then have "\<not> (success (metadataResponse e) \<and> (\<not> has_video item \<or> success (videoResponse e)))"
    using transfer_error_None_iff [of e item] by simp
  with processItem_failed_db [OF assms(1,2) Some assms(4), of s] show ?thesis
    by blast
qed

theorem attempt_succeeds_iff_transfers_succeed_witness:
  "isConnected (sample_attempt True True 20) \<and> retry_count sample_row < maxRetries
   \<and> completed_write_fault (sample_attempt True True 20) = None
   \<and> failed_write_fault (sample_attempt True True 20) = None
   \<and> success (metadataResponse (sample_attempt True True 20)) \<and> \<not> has_video sample_row
   \<and> getQueueItem (item_id sample_row) queued_offline = Some sample_row
   \<and> getQueueItem (item_id sample_row)
        (processItem (sample_attempt True True 20) sample_row queued_offline) = None
   \<and> db (processItem (sample_attempt True True 20) sample_row queued_offline)
       = [sample_row\<lparr>status := Completed, uploaded_at := Some 20\<rparr>]
   \<and> \<not> success (metadataResponse (sample_attempt True False 20))
   \<and> map status (db (processItem (sample_attempt True False 20) sample_row queued_offline))
       = [Failed]"
proof -
  have up: "isConnected (sample_attempt True b 20)" for b
    by (simp add: sample_attempt_def)
  have below: "retry_count sample_row < maxRetries"
    by (simp add: sample_row_def queueItem_def maxRetries_def)
  have served: "completed_write_fault (sample_attempt True b 20) = None"
    "failed_write_fault (sample_attempt True b 20) = None" for b
    by (simp_all add: sample_attempt_def)
  have ok: "success (metadataResponse (sample_attempt True True 20))" "\<not> has_video sample_row"
    by (simp_all add: sample_attempt_def accepted_def has_video_def truthy_def sample_row_def
        queueItem_def sample_input_def)
  have bad: "\<not> success (metadataResponse (sample_attempt True False 20))"
    by (simp add: sample_attempt_def refused_def)
  have state: "db queued_offline = [sample_row]"
    "getQueueItem (item_id sample_row) queued_offline = Some sample_row"
    by (simp_all add: queued_offline_eq sample_row_def getQueueItem_def queueItem_def sample_input_def)
  from attempt_succeeds_iff_transfers_succeed [OF up below served, of True queued_offline] ok
  have "getQueueItem (item_id sample_row)
        (processItem (sample_attempt True True 20) sample_row queued_offline) = None"
    and "db (processItem (sample_attempt True True 20) sample_row queued_offline)
        = map (\<lambda>r. if item_id r = item_id sample_row
            then r\<lparr>status := Completed, uploaded_at := Some (clock (sample_attempt True True 20))\<rparr>
            else r) (db queued_offline)"
    by blast+
  then have good: "getQueueItem (item_id sample_row)
        (processItem (sample_attempt True True 20) sample_row queued_offline) = None"
      "db (processItem (sample_attempt True True 20) sample_row queued_offline)
        = [sample_row\<lparr>status := Completed, uploaded_at := Some 20\<rparr>]"
    by (simp_all add: state sample_attempt_def)
  from attempt_succeeds_iff_transfers_succeed [OF up below served, of False queued_offline] bad
  obtain msg where "db (processItem (sample_attempt True False 20) sample_row queued_offline)
      = map (\<lambda>r. if item_id r = item_id sample_row
          then r\<lparr>status := Failed, retry_count := retry_count sample_row + 1,
                 error_message := Some msg\<rparr> else r) (db queued_offline)"
    by blast
  then have poor: "map status
      (db (processItem (sample_attempt True False 20) sample_row queued_offline)) = [Failed]"
    by (simp add: state)
  from up below served ok bad state good poor show ?thesis
    by blast
qed

subsection \<open>An item whose transfers always fail\<close>






subsection \<open>One pass, one attempt at a time\<close>

text \<open>
  C8. Let no item of the map be in status \<^verbatim>\<open>uploading\<close> when \<^verbatim>\<open>processQueue\<close> is called.
  If a pass is in progress the call returns the state as it is and has no instants of
  its own. Otherwise, at every instant of the pass the flag is set, so that a further
  call of \<^verbatim>\<open>processQueue\<close> made at that instant changes nothing, and at most one item
  of the map is in status \<^verbatim>\<open>uploading\<close>; the attempts follow one another in the order of
  the page. When the pass has ended, the flag is cleared and no item is \<^verbatim>\<open>uploading\<close>.
\<close>

theorem processQueue_single_flight:
  assumes "uploading_count s = 0"
  shows "(isProcessing s \<longrightarrow> processQueue p s = s \<and> processQueue_instants p s = [])
       \<and> (\<forall>t \<in> set (processQueue_instants p s).
            isProcessing t \<and> (\<forall>p'. processQueue p' t = t) \<and> uploading_count t \<le> 1)
       \<and> uploading_count (processQueue p s) = 0
       \<and> (\<not> isProcessing s \<longrightarrow> \<not> isProcessing (processQueue p s))"
proof -
  let ?s0 = "s\<lparr>isProcessing := True\<rparr>"
  from assms have s0: "uploading_count ?s0 = 0"
    by (simp add: uploading_count_def getQueueItems_def)
  have guard: "isProcessing t \<Longrightarrow> processQueue p' t = t" for p' t
    by (simp add: processQueue_def)
  have busy: "isProcessing s \<longrightarrow> processQueue p s = s \<and> processQueue_instants p s = []"
    by (simp add: processQueue_def processQueue_instants_def)
  have during: "isProcessing t \<and> (\<forall>p'. processQueue p' t = t) \<and> uploading_count t \<le> 1"
    if "t \<in> set (processQueue_instants p s)" for t
  proof -
    from that have idle: "\<not> isProcessing s" and "t = ?s0 \<or> t \<in> set (processLoop_instants p 0 ?s0)"
      by (auto simp: processQueue_instants_def split: if_splits)
    then show ?thesis
    proof (elim disjE)
      assume "t = ?s0"
      with s0 guard [of t] show ?thesis
        by simp
    next
      assume t: "t \<in> set (processLoop_instants p 0 ?s0)"
      with isProcessing_loop_instants [of p 0 ?s0] have "isProcessing t"
        by simp
      moreover from t uploading_count_loop_instants [OF s0, of p 0] have "uploading_count t \<le> 1"
        by blast
      ultimately show ?thesis
        using guard [of t] by blast
    qed
  qed
  have ended: "uploading_count (processQueue p s) = 0"
  proof (cases "isProcessing s")
    case True
    with assms show ?thesis
      by (simp add: processQueue_def)
  next
    case False
    from uploading_count_loop [OF s0, of p 0]
    have "uploading_count ((processLoop p 0 ?s0)\<lparr>isProcessing := False\<rparr>) = 0"
      by (simp add: uploading_count_def getQueueItems_def)
    with False show ?thesis
      by (simp add: processQueue_def)
  qed
  have cleared: "\<not> isProcessing s \<longrightarrow> \<not> isProcessing (processQueue p s)"
    by (simp add: processQueue_def)
  from busy during ended cleared show ?thesis
    by blast
qed


theorem processQueue_single_flight_witness:
  "uploading_count queued_offline = 0 \<and> \<not> isProcessing queued_offline
   \<and> map uploading_count (processQueue_instants (world True True 20) queued_offline)
       = [0, 0, 1, 0]
   \<and> list_all isProcessing (processQueue_instants (world True True 20) queued_offline)
   \<and> list_all (\<lambda>t. processQueue (world True True 30) t = t)
        (processQueue_instants (world True True 20) queued_offline)
   \<and> uploading_count (processQueue (world True True 20) queued_offline) = 0
   \<and> \<not> isProcessing (processQueue (world True True 20) queued_offline)"
proof -
  have quiet: "uploading_count queued_offline = 0" and idle: "\<not> isProcessing queued_offline"
    by (simp_all add: queued_offline_eq uploading_count_def getQueueItems_def queueItem_def)
  have counts: "map uploading_count (processQueue_instants (world True True 20) queued_offline)
      = [0, 0, 1, 0]"
    by (simp add: queued_offline_eq processQueue_instants_def processLoop_instants.simps
        uploading_count_def engine_defs sample_defs)
  from processQueue_single_flight [OF quiet, of "world True True 20"] idle
  have "\<forall>t \<in> set (processQueue_instants (world True True 20) queued_offline).
        isProcessing t \<and> processQueue (world True True 30) t = t"
    and "uploading_count (processQueue (world True True 20) queued_offline) = 0"
    and "\<not> isProcessing (processQueue (world True True 20) queued_offline)"
    by blast+
  with quiet idle counts show ?thesis
    by (simp add: list_all_iff)
qed

subsection \<open>clearQueue\<close>

text \<open>
  C10. \<^verbatim>\<open>clearQueue\<close> clears the map before it issues the bulk delete, so the map is
  empty afterwards whatever the table answers (\<^verbatim>\<open>getQueueItems()\<close> is the empty list). When
  the bulk delete is rejected the call throws that error and the table still holds its
  rows; when it is served the call resolves and the table is empty.
\<close>

theorem clearQueue_memory_first:
  "getQueueItems (snd (clearQueue fault s)) = []
   \<and> (fault = Some msg \<longrightarrow>
        fst (clearQueue fault s) = Some (StoreFailure msg) \<and> db (snd (clearQueue fault s)) = db s)
   \<and> (fault = None \<longrightarrow> fst (clearQueue fault s) = None \<and> db (snd (clearQueue fault s)) = [])"
  by (auto simp: clearQueue_def deleteAll_def Let_def getQueueItems_def split: option.splits)

theorem clearQueue_memory_first_witness:
  "getQueueItems queued_offline = [queueItem (sample_input ''a'') 10]
   \<and> getQueueItems (snd (clearQueue (Some ''disk I/O error'') queued_offline)) = []
   \<and> fst (clearQueue (Some ''disk I/O error'') queued_offline)
       = Some (StoreFailure ''disk I/O error'')
   \<and> db (snd (clearQueue (Some ''disk I/O error'') queued_offline))
       = [queueItem (sample_input ''a'') 10]
   \<and> fst (clearQueue None queued_offline) = None
   \<and> db (snd (clearQueue None queued_offline)) = []"
  using clearQueue_memory_first [of "Some ''disk I/O error''" queued_offline "''disk I/O error''"]
    clearQueue_memory_first [of None queued_offline]
  by (simp add: queued_offline_eq getQueueItems_def)

end
